theory Spec2Isabelle
  imports Complex_Main "HOL-Library.Char_ord" "HOL-Library.List_Lexorder" "HOL-Library.Sublist"
begin

section \<open>Errors and results\<close>

text \<open>
  The package's sentinel errors, and the errors that wrap them. \<open>TimeParseError v\<close> is the
  \<open>*time.ParseError\<close> of \<open>time.Parse("2006-01-02", v)\<close>; \<open>TypeAssertionError t\<close> is the
  run-time error of the type assertion \<open>x.(bool)\<close> on a value of dynamic type \<open>t\<close>;
  \<open>LibError m\<close> is an error with message \<open>m\<close> that a collaborator (net/http, io,
  encoding/json) returned. The three wrappers are the three \<open>fmt.Errorf\<close> calls of the
  package.
\<close>

datatype error =
    ErrInvalidCode
  | ErrInvalidDate
  | ErrInvalidDateFormat
  | ErrTimeframeExceeded
  | ErrInvalidTimeFrame
  | ErrInvalidAPIResponse
  | TimeParseError string
  | TypeAssertionError string
  | LibError string
  | WrapDateFormat string error
  | WrapUnmarshal string error
  | WrapAPIResponse string

text \<open>
  \<open>errors.Is\<close>: the error itself, or one it wraps with \<open>%w\<close>.
  \<open>WrapDateFormat s e\<close> is \<open>fmt.Errorf("%w: parse %q as 2006-01-02: %w", ErrInvalidDateFormat, s, e)\<close>,
  \<open>WrapUnmarshal b e\<close> is \<open>fmt.Errorf("unmarshal %q: %w", b, e)\<close> and
  \<open>WrapAPIResponse b\<close> is \<open>fmt.Errorf("%q: %w", b, ErrInvalidAPIResponse)\<close>.
\<close>

fun errors_Is :: "error \<Rightarrow> error \<Rightarrow> bool" where
  "errors_Is (WrapDateFormat s e) t =
     (if WrapDateFormat s e = t then True
      else if t = ErrInvalidDateFormat then True
      else errors_Is e t)"
| "errors_Is (WrapUnmarshal b e) t =
     (if WrapUnmarshal b e = t then True else errors_Is e t)"
| "errors_Is (WrapAPIResponse b) t =
     (if WrapAPIResponse b = t then True else t = ErrInvalidAPIResponse)"
| "errors_Is e t = (e = t)"

text \<open>
  What a call does: it returns a value, returns an error, or panics.
  For a function whose Go result is just \<open>error\<close>, \<open>Ok ()\<close> is \<open>nil\<close>.
\<close>

datatype 'a res = Ok 'a | Err error | Panic error

fun bind_res :: "'a res \<Rightarrow> ('a \<Rightarrow> 'b res) \<Rightarrow> 'b res" where
  "bind_res (Ok x) f = f x"
| "bind_res (Err e) f = Err e"
| "bind_res (Panic e) f = Panic e"

section \<open>The Exchange instance\<close>

record Exchange =
  Base :: string
  CacheEnabled :: bool
  isInitialized :: bool

definition New :: "string \<Rightarrow> Exchange" where
  "New base = \<lparr>Exchange.Base = base, CacheEnabled = True, isInitialized = True\<rparr>"

section \<open>Validation of currency codes\<close>

text \<open>\<open>len(code)\<close> counts bytes; a \<open>string\<close> here is a list of bytes.\<close>

definition ValidateCode :: "string \<Rightarrow> unit res" where
  "ValidateCode code = (if length code \<noteq> 3 then Err ErrInvalidCode else Ok ())"

fun ValidateSymbols :: "string list \<Rightarrow> unit res" where
  "ValidateSymbols [] = Ok ()"
| "ValidateSymbols (code # symbols) =
     (case ValidateCode code of
        Ok u \<Rightarrow> ValidateSymbols symbols
      | Err e \<Rightarrow> Err e
      | Panic e \<Rightarrow> Panic e)"

text \<open>\<open>SetBase\<close> returns the instance as the call leaves it, and the error (or \<open>nil\<close>).\<close>

definition SetBase :: "Exchange \<Rightarrow> string \<Rightarrow> Exchange \<times> unit res" where
  "SetBase exchange base =
     (case ValidateCode base of
        Ok u \<Rightarrow> (exchange\<lparr>Exchange.Base := base\<rparr>, Ok ())
      | Err e \<Rightarrow> (exchange, Err e)
      | Panic e \<Rightarrow> (exchange, Panic e))"

definition SetCache :: "Exchange \<Rightarrow> bool \<Rightarrow> Exchange" where
  "SetCache exchange enabled = exchange\<lparr>CacheEnabled := enabled\<rparr>"

section \<open>Calendar dates\<close>

text \<open>
  The part of Go's \<open>time\<close> package that \<open>parseDate\<close>, \<open>ValidateDate\<close> and
  \<open>ValidateTimeFrame\<close> call, taken from its documentation and source. A \<open>Time\<close> without
  monotonic reading is the seconds since January 1 of year 1, 00:00:00 UTC, and the
  nanoseconds within the second; a \<open>Duration\<close> is a signed 64-bit count of nanoseconds.
\<close>

record Time =
  sec :: int
  nsec :: int

type_synonym Duration = int

definition maxDuration :: Duration where
  "maxDuration = 2 ^ 63 - 1"

definition minDuration :: Duration where
  "minDuration = - (2 ^ 63)"

definition isLeap :: "int \<Rightarrow> bool" where
  "isLeap year =
     (if year mod 4 \<noteq> 0 then False else if year mod 100 \<noteq> 0 then True else year mod 400 = 0)"

text \<open>\<open>daysBefore[m]\<close>: the days of a non-leap year before month \<open>m + 1\<close>.\<close>

definition daysBefore :: "int \<Rightarrow> int" where
  "daysBefore m =
     (if m \<le> 0 then 0 else if m = 1 then 31 else if m = 2 then 59 else if m = 3 then 90
      else if m = 4 then 120 else if m = 5 then 151 else if m = 6 then 181
      else if m = 7 then 212 else if m = 8 then 243 else if m = 9 then 273
      else if m = 10 then 304 else if m = 11 then 334 else 365)"

definition daysIn :: "int \<Rightarrow> int \<Rightarrow> int" where
  "daysIn m year =
     (if m = 2 \<and> isLeap year then 29 else daysBefore m - daysBefore (m - 1))"

text \<open>
  The days from January 1 of year 1 to January 1 of \<open>year\<close> in the proleptic Gregorian
  calendar (negative for year 0): 365 for each year and one more for each leap year.
\<close>

definition daysSinceEpoch :: "int \<Rightarrow> int" where
  "daysSinceEpoch year =
     365 * (year - 1) + (year - 1) div 4 - (year - 1) div 100 + (year - 1) div 400"

text \<open>
  \<open>time.Date(year, month, day, 0, 0, 0, 0, time.UTC)\<close> for a month in 1..12 and a day in
  1..\<open>daysIn\<close>: the only calls \<open>time.Parse\<close> makes here, so nothing is normalised.
\<close>

definition time_Date :: "int \<Rightarrow> int \<Rightarrow> int \<Rightarrow> Time" where
  "time_Date year month day =
     \<lparr>sec = (daysSinceEpoch year + daysBefore (month - 1)
              + (if isLeap year \<and> 3 \<le> month then 1 else 0) + (day - 1)) * 86400,
      nsec = 0\<rparr>"

definition Before :: "Time \<Rightarrow> Time \<Rightarrow> bool" where
  "Before t u = (sec t < sec u \<or> (sec t = sec u \<and> nsec t < nsec u))"

text \<open>
  \<open>t.Sub(u)\<close>: the duration \<open>t - u\<close>, or the maximum (minimum) duration when \<open>t - u\<close> does
  not fit into a \<open>Duration\<close>.
\<close>

definition Sub :: "Time \<Rightarrow> Time \<Rightarrow> Duration" where
  "Sub t u =
     (let d = (sec t - sec u) * 1000000000 + (nsec t - nsec u) in
      if d < minDuration then minDuration
      else if maxDuration < d then maxDuration
      else d)"

text \<open>
  \<open>d.Hours()\<close> is the \<open>float64\<close> sum of the whole hours and of the remaining nanoseconds
  over 3.6e12. It is modelled by the exact quotient. The two agree on every whole number of
  hours below \<open>2^53\<close>, so on every difference of two parsed dates that \<open>Sub\<close> does not
  saturate; the saturated duration is more than 2.5 million hours either way. The
  threshold 8759.992992006 of \<open>ValidateTimeFrame\<close> lies strictly between 8759 and 8760
  both as a decimal and once rounded to \<open>float64\<close>.
\<close>

definition Hours :: "Duration \<Rightarrow> rat" where
  "Hours d = of_int d / 3600000000000"

subsection \<open>Parsing with the layout 2006-01-02\<close>

definition isDigit :: "char \<Rightarrow> bool" where
  "isDigit c = (CHR ''0'' \<le> c \<and> c \<le> CHR ''9'')"

definition digitVal :: "char \<Rightarrow> int" where
  "digitVal c = int (of_char c) - 48"

text \<open>The layout element \<open>2006\<close>: four bytes, all digits.\<close>

definition getLongYear :: "string \<Rightarrow> (int \<times> string) option" where
  "getLongYear v =
     (if length v < 4 then None
      else if list_all isDigit (take 4 v)
        then Some (foldl (\<lambda>a c. a * 10 + digitVal c) 0 (take 4 v), drop 4 v)
        else None)"

text \<open>\<open>getnum(s, true)\<close>, for the layout elements \<open>01\<close> and \<open>02\<close>: two digits.\<close>

fun getnum :: "string \<Rightarrow> (int \<times> string) option" where
  "getnum (a # b # rest) =
     (if isDigit a \<and> isDigit b then Some (digitVal a * 10 + digitVal b, rest) else None)"
| "getnum v = None"

text \<open>\<open>skip(value, "-")\<close>.\<close>

fun skipDash :: "string \<Rightarrow> string option" where
  "skipDash [] = None"
| "skipDash (c # rest) = (if c = CHR ''-'' then Some rest else None)"

text \<open>
  \<open>time.Parse("2006-01-02", v)\<close>: year, dash, month (checked against 1..12 at once), dash,
  day, no text left, and last the day checked against the month's length.
\<close>

definition time_Parse :: "string \<Rightarrow> Time res" where
  "time_Parse v =
     (case getLongYear v of
        None \<Rightarrow> Err (TimeParseError v)
      | Some (year, v1) \<Rightarrow>
     (case skipDash v1 of
        None \<Rightarrow> Err (TimeParseError v)
      | Some v2 \<Rightarrow>
     (case getnum v2 of
        None \<Rightarrow> Err (TimeParseError v)
      | Some (month, v3) \<Rightarrow>
        if month \<le> 0 \<or> 12 < month then Err (TimeParseError v)
        else
     (case skipDash v3 of
        None \<Rightarrow> Err (TimeParseError v)
      | Some v4 \<Rightarrow>
     (case getnum v4 of
        None \<Rightarrow> Err (TimeParseError v)
      | Some (day, v5) \<Rightarrow>
        if v5 \<noteq> [] then Err (TimeParseError v)
        else if day < 1 \<or> daysIn month year < day then Err (TimeParseError v)
        else Ok (time_Date year month day))))))"

section \<open>Validation of dates and time frames\<close>

definition parseDate :: "string \<Rightarrow> Time res" where
  "parseDate s =
     (case time_Parse s of
        Ok t \<Rightarrow> Ok t
      | Err e \<Rightarrow> Err (WrapDateFormat s e)
      | Panic e \<Rightarrow> Panic e)"

definition ValidateDate :: "string \<Rightarrow> unit res" where
  "ValidateDate date =
     (case parseDate ''1999-01-03'' of
        Err e \<Rightarrow> Panic e
      | Panic e \<Rightarrow> Panic e
      | Ok oldestDate \<Rightarrow>
     (case parseDate date of
        Err e \<Rightarrow> Err e
      | Panic e \<Rightarrow> Panic e
      | Ok selectedDate \<Rightarrow>
          if Before selectedDate oldestDate then Err ErrInvalidDate else Ok ()))"

text \<open>The array \<open>[2]string\<close> is a pair; \<open>TimeFrame_at\<close> indexes it.\<close>

type_synonym TimeFrame = "string \<times> string"

definition TimeFrame_at :: "TimeFrame \<Rightarrow> nat \<Rightarrow> string" where
  "TimeFrame_at tf i = (if i = 0 then fst tf else snd tf)"

definition ValidateTimeFrame :: "TimeFrame \<Rightarrow> unit res" where
  "ValidateTimeFrame tf =
     (case parseDate (TimeFrame_at tf 0) of
        Err e \<Rightarrow> Err e
      | Panic e \<Rightarrow> Panic e
      | Ok from \<Rightarrow>
     (case parseDate (TimeFrame_at tf 1) of
        Err e \<Rightarrow> Err e
      | Panic e \<Rightarrow> Panic e
      | Ok to \<Rightarrow>
          if Before to from then Err ErrInvalidTimeFrame
          else if 8759992992006 / 1000000000 < Hours (Sub to from) then Err ErrTimeframeExceeded
          else Ok ()))"

section \<open>Query strings\<close>

text \<open>
  The part of Go's \<open>net/url\<close>, \<open>strings\<close> and \<open>strconv\<close> packages that \<open>processQuery\<close>
  calls. \<open>url.Values\<close> is a \<open>map[string][]string\<close>: an association list with one entry for
  each key, whose order means nothing (\<open>Encode\<close> sorts the keys).
\<close>

type_synonym Values = "(string \<times> string list) list"

text \<open>\<open>v[key]\<close>: the values of the key, \<open>nil\<close> when the key is absent.\<close>

definition Values_at :: "Values \<Rightarrow> string \<Rightarrow> string list" where
  "Values_at v key = (case map_of v key of None \<Rightarrow> [] | Some vs \<Rightarrow> vs)"

text \<open>\<open>v.Add(key, value)\<close>: \<open>v[key] = append(v[key], value)\<close>.\<close>

fun Add :: "string \<Rightarrow> string \<Rightarrow> Values \<Rightarrow> Values" where
  "Add key val [] = [(key, [val])]"
| "Add key val ((k, vs) # v) =
     (if k = key then (k, vs @ [val]) # v else (k, vs) # Add key val v)"

definition isAlnum :: "char \<Rightarrow> bool" where
  "isAlnum c =
     (if CHR ''a'' \<le> c \<and> c \<le> CHR ''z'' then True
      else if CHR ''A'' \<le> c \<and> c \<le> CHR ''Z'' then True
      else CHR ''0'' \<le> c \<and> c \<le> CHR ''9'')"

text \<open>
  \<open>shouldEscape(c, encodeQueryComponent)\<close>: letters, digits and the marks \<open>- _ . ~\<close> are
  kept; everything else, the reserved characters included, is escaped.
\<close>

definition shouldEscape :: "char \<Rightarrow> bool" where
  "shouldEscape c =
     (if isAlnum c then False
      else if c = CHR ''-'' \<or> c = CHR ''_'' \<or> c = CHR ''.'' \<or> c = CHR ''~'' then False
      else True)"

definition upperhex :: "nat \<Rightarrow> char" where
  "upperhex n = ''0123456789ABCDEF'' ! (n mod 16)"

definition escapeByte :: "char \<Rightarrow> string" where
  "escapeByte c =
     (if shouldEscape c
      then (if c = CHR '' '' then ''+''
            else [CHR ''%'', upperhex (of_char c div 16), upperhex (of_char c mod 16)])
      else [c])"

definition QueryEscape :: "string \<Rightarrow> string" where
  "QueryEscape s = concat (map escapeByte s)"

definition ishex :: "char \<Rightarrow> bool" where
  "ishex c =
     (if CHR ''0'' \<le> c \<and> c \<le> CHR ''9'' then True
      else if CHR ''a'' \<le> c \<and> c \<le> CHR ''f'' then True
      else CHR ''A'' \<le> c \<and> c \<le> CHR ''F'')"

definition unhex :: "char \<Rightarrow> nat" where
  "unhex c =
     (if CHR ''0'' \<le> c \<and> c \<le> CHR ''9'' then of_char c - 48
      else if CHR ''a'' \<le> c \<and> c \<le> CHR ''f'' then of_char c - 97 + 10
      else if CHR ''A'' \<le> c \<and> c \<le> CHR ''F'' then of_char c - 65 + 10
      else 0)"

text \<open>
  \<open>QueryUnescape\<close>: \<open>None\<close> is the error of a \<open>%\<close> that two hexadecimal digits do not
  follow; otherwise \<open>%XX\<close> is the byte and \<open>+\<close> is a space.
\<close>

fun QueryUnescape :: "string \<Rightarrow> string option" where
  "QueryUnescape [] = Some []"
| "QueryUnescape (c # s) =
     (if c = CHR ''%''
      then (case s of
              a # b # rest \<Rightarrow>
                if ishex a \<and> ishex b
                then map_option ((#) (char_of (unhex a * 16 + unhex b))) (QueryUnescape rest)
                else None
            | _ \<Rightarrow> None)
      else map_option ((#) (if c = CHR ''+'' then CHR '' '' else c)) (QueryUnescape s))"

text \<open>\<open>strings.Cut(s, sep)\<close> for a separator of one byte: the text before and after its first occurrence.\<close>

definition Cut :: "string \<Rightarrow> char \<Rightarrow> string \<times> string" where
  "Cut s sep = (takeWhile (\<lambda>c. c \<noteq> sep) s, drop 1 (dropWhile (\<lambda>c. c \<noteq> sep) s))"

text \<open>
  \<open>parseQuery(m, query)\<close>, whose error \<open>URL.Query\<close> drops: a pair with a semicolon, an
  empty pair and a pair that does not unescape are skipped.
\<close>

function parseQuery :: "Values \<Rightarrow> string \<Rightarrow> Values" where
  "parseQuery m query =
     (if query = [] then m
      else
        (let key = fst (Cut query (CHR ''&'')); rest = snd (Cut query (CHR ''&'')) in
         if CHR '';'' \<in> set key then parseQuery m rest
         else if key = [] then parseQuery m rest
         else
           (case QueryUnescape (fst (Cut key (CHR ''=''))) of
              None \<Rightarrow> parseQuery m rest
            | Some k \<Rightarrow>
           (case QueryUnescape (snd (Cut key (CHR ''=''))) of
              None \<Rightarrow> parseQuery m rest
            | Some val \<Rightarrow> parseQuery (Add k val m) rest))))"
  by pat_completeness auto
termination
proof -
  have shorter: "length (dropWhile (\<lambda>c. c \<noteq> CHR ''&'') s) - Suc 0 < length s"
    if "s \<noteq> []" for s :: string
  proof -
    have "length (dropWhile (\<lambda>c. c \<noteq> CHR ''&'') s) \<le> length s"
      by (rule length_dropWhile_le)
    moreover from that have "0 < length s" by simp
    ultimately show ?thesis by arith
  qed
  show ?thesis
    by (relation "measure (\<lambda>(m, query). length query)") (auto simp: Cut_def shorter)
qed

text \<open>\<open>strings.Join(elems, sep)\<close>.\<close>

fun Join :: "string list \<Rightarrow> string \<Rightarrow> string" where
  "Join [] sep = []"
| "Join [a] sep = a"
| "Join (a # b # elems) sep = a @ sep @ Join (b # elems) sep"

text \<open>
  The pairs that \<open>v.Encode()\<close> writes, in its order: the keys sorted as strings (bytewise),
  and under each key its values in their order.
\<close>

definition Encode_pairs :: "Values \<Rightarrow> (string \<times> string) list" where
  "Encode_pairs v = concat (map (\<lambda>k. map (\<lambda>x. (k, x)) (Values_at v k)) (sort (map fst v)))"

definition Encode_pair :: "string \<times> string \<Rightarrow> string" where
  "Encode_pair kv = QueryEscape (fst kv) @ ''='' @ QueryEscape (snd kv)"

definition Encode :: "Values \<Rightarrow> string" where
  "Encode v = Join (map Encode_pair (Encode_pairs v)) ''&''"

text \<open>\<open>strconv.Itoa\<close>: the decimal digits, after a minus sign for a negative number.\<close>

function digits :: "int \<Rightarrow> string" where
  "digits n =
     (if n < 10 then [''0123456789'' ! nat n]
      else digits (n div 10) @ [''0123456789'' ! nat (n mod 10)])"
  by pat_completeness auto
termination
  by (relation "measure nat") auto

definition Itoa :: "int \<Rightarrow> string" where
  "Itoa i = (if i < 0 then ''-'' @ digits (- i) else digits i)"

section \<open>Requests\<close>

text \<open>
  Of a \<open>*url.URL\<close> the package reads and writes \<open>RawQuery\<close> alone. \<open>Prefix\<close> and \<open>Suffix\<close>
  are what \<open>URL.String()\<close> writes before the query (scheme, host, path) and after it (the
  fragment).
\<close>

record url =
  Prefix :: string
  ForceQuery :: bool
  RawQuery :: string
  Suffix :: string

record Request =
  URL :: url

definition URL_Query :: "url \<Rightarrow> Values" where
  "URL_Query u = parseQuery [] (RawQuery u)"

definition URL_String :: "url \<Rightarrow> string" where
  "URL_String u =
     Prefix u @ (if ForceQuery u \<or> RawQuery u \<noteq> [] then ''?'' @ RawQuery u else []) @ Suffix u"

record query =
  From :: string
  To :: string
  Base :: string
  Amount :: int
  Symbols :: "string list"
  Date :: string
  TimeFrame :: TimeFrame

text \<open>The loop \<open>for i := 0; i < 1; i++\<close> over the indices \<open>is\<close>, returning at the first error.\<close>

fun ValidateDates :: "TimeFrame \<Rightarrow> nat list \<Rightarrow> unit res" where
  "ValidateDates tf [] = Ok ()"
| "ValidateDates tf (i # is) =
     (case ValidateDate (TimeFrame_at tf i) of
        Ok u \<Rightarrow> ValidateDates tf is
      | Err e \<Rightarrow> Err e
      | Panic e \<Rightarrow> Panic e)"

text \<open>
  \<open>processQuery\<close> up to the last assignment: the values \<open>Q\<close> it has built when no
  validation failed. The first argument is \<open>Client.AccessKey\<close>.
\<close>

definition processQuery_Q :: "string \<Rightarrow> Request \<Rightarrow> query \<Rightarrow> Values res" where
  "processQuery_Q accessKey req q =
     bind_res (Ok (Add ''access_key'' accessKey (URL_Query (URL req)))) (\<lambda>Q.
     bind_res (if query.Base q \<noteq> []
               then bind_res (ValidateCode (query.Base q)) (\<lambda>u. Ok (Add ''base'' (query.Base q) Q))
               else Ok Q) (\<lambda>Q.
     bind_res (if From q \<noteq> []
               then bind_res (ValidateCode (From q)) (\<lambda>u. Ok (Add ''from'' (From q) Q))
               else Ok Q) (\<lambda>Q.
     bind_res (if To q \<noteq> []
               then bind_res (ValidateCode (To q)) (\<lambda>u. Ok (Add ''to'' (To q) Q))
               else Ok Q) (\<lambda>Q.
     bind_res (if 1 < Amount q then Ok (Add ''amount'' (Itoa (Amount q)) Q) else Ok Q) (\<lambda>Q.
     bind_res (if length (Symbols q) \<noteq> 0
               then Ok (Add ''symbols'' (Join (Symbols q) '','') Q)
               else Ok Q) (\<lambda>Q.
     bind_res (if Date q \<noteq> []
               then bind_res (ValidateDate (Date q)) (\<lambda>u. Ok (Add ''date'' (Date q) Q))
               else Ok Q) (\<lambda>Q.
     (if TimeFrame q \<noteq> ([], [])
      then bind_res (ValidateDates (TimeFrame q) [0..<1]) (\<lambda>u.
           bind_res (ValidateTimeFrame (TimeFrame q)) (\<lambda>u.
           Ok (Add ''end_date'' (TimeFrame_at (TimeFrame q) 1)
                (Add ''start_date'' (TimeFrame_at (TimeFrame q) 0) Q))))
      else Ok Q))))))))"

text \<open>
  \<open>processQuery\<close>: the request as the call leaves it, and the error. Only the last
  statement writes to the request.
\<close>

definition processQuery :: "string \<Rightarrow> Request \<Rightarrow> query \<Rightarrow> Request \<times> unit res" where
  "processQuery accessKey req q =
     (case processQuery_Q accessKey req q of
        Err e \<Rightarrow> (req, Err e)
      | Panic e \<Rightarrow> (req, Panic e)
      | Ok Q \<Rightarrow> (req\<lparr>URL := (URL req)\<lparr>RawQuery := Encode Q\<rparr>\<rparr>, Ok ()))"

section \<open>Quoting and error messages\<close>

text \<open>
  The verb \<open>%q\<close> of \<open>fmt.Errorf\<close> on a string is \<open>strconv.Quote\<close>. Runes and bytes
  are integers. \<open>DecodeRuneInString\<close> returns the rune at the head of a non-empty string and its
  width in bytes, or \<open>RuneError\<close> and width 1 where the bytes are not UTF-8.
\<close>

definition RuneError :: int where
  "RuneError = 65533"

definition byte_at :: "string \<Rightarrow> nat \<Rightarrow> int" where
  "byte_at s i = (if i < length s then of_char (s ! i) else 0)"

definition DecodeRuneInString :: "string \<Rightarrow> int \<times> nat" where
  "DecodeRuneInString s =
     (let s0 = byte_at s 0 in
      if length s < 1 then (RuneError, 0)
      else if s0 < 128 then (s0, 1)
      else if s0 < 194 \<or> 244 < s0 then (RuneError, 1)
      else
        (let sz = (if s0 < 224 then 2 else if s0 < 240 then 3 else 4) :: nat;
             lo = (if s0 = 224 then 160 else if s0 = 240 then 144 else 128) :: int;
             hi = (if s0 = 237 then 159 else if s0 = 244 then 143 else 191) :: int;
             s1 = byte_at s 1; s2 = byte_at s 2; s3 = byte_at s 3
         in if length s < sz then (RuneError, 1)
            else if s1 < lo \<or> hi < s1 then (RuneError, 1)
            else if sz \<le> 2 then ((s0 mod 32) * 64 + s1 mod 64, 2)
            else if s2 < 128 \<or> 191 < s2 then (RuneError, 1)
            else if sz \<le> 3 then ((s0 mod 16) * 4096 + (s1 mod 64) * 64 + s2 mod 64, 3)
            else if s3 < 128 \<or> 191 < s3 then (RuneError, 1)
            else ((s0 mod 8) * 262144 + (s1 mod 64) * 4096 + (s2 mod 64) * 64 + s3 mod 64, 4)))"

text \<open>
  \<open>utf8.AppendRune\<close>: the UTF-8 encoding of a rune, that of \<open>RuneError\<close> for a number
  that is no rune (negative, a surrogate half, or beyond \<open>U+10FFFF\<close>).
\<close>

definition AppendRune :: "int \<Rightarrow> string" where
  "AppendRune r =
     (if 0 \<le> r \<and> r \<le> 127 then [char_of r]
      else if 0 \<le> r \<and> r \<le> 2047 then [char_of (192 + r div 64), char_of (128 + r mod 64)]
      else if r < 0 \<or> 1114111 < r \<or> (55296 \<le> r \<and> r \<le> 57343) then
        [char_of (224 + RuneError div 4096), char_of (128 + RuneError div 64 mod 64),
         char_of (128 + RuneError mod 64)]
      else if r \<le> 65535 then
        [char_of (224 + r div 4096), char_of (128 + r div 64 mod 64), char_of (128 + r mod 64)]
      else
        [char_of (240 + r div 262144), char_of (128 + r div 4096 mod 64),
         char_of (128 + r div 64 mod 64), char_of (128 + r mod 64)])"

text \<open>
  \<open>strconv.IsPrint\<close>: decided here for Latin-1; beyond it Go searches its Unicode
  tables, which are the parameter \<open>tables\<close>.
\<close>

definition IsPrint :: "(int \<Rightarrow> bool) \<Rightarrow> int \<Rightarrow> bool" where
  "IsPrint tables r =
     (if r \<le> 255
      then (if 32 \<le> r \<and> r \<le> 126 then True
            else if 161 \<le> r \<and> r \<le> 255 then r \<noteq> 173
            else False)
      else tables r)"

definition lowerhex :: "int \<Rightarrow> char" where
  "lowerhex n = ''0123456789abcdef'' ! nat (n mod 16)"

text \<open>
  \<open>appendEscapedRune(buf, r, '"', false, false)\<close>: what it appends for the rune. A number
  that is no rune is written as \<open>\ufffd\<close>.
\<close>

definition appendEscapedRune :: "(int \<Rightarrow> bool) \<Rightarrow> int \<Rightarrow> string" where
  "appendEscapedRune tables r =
     (if r = 34 \<or> r = 92 then [CHR 0x5C, char_of r]
      else if IsPrint tables r then AppendRune r
      else if r = 7 then [CHR 0x5C, CHR ''a'']
      else if r = 8 then [CHR 0x5C, CHR ''b'']
      else if r = 12 then [CHR 0x5C, CHR ''f'']
      else if r = 10 then [CHR 0x5C, CHR ''n'']
      else if r = 13 then [CHR 0x5C, CHR ''r'']
      else if r = 9 then [CHR 0x5C, CHR ''t'']
      else if r = 11 then [CHR 0x5C, CHR ''v'']
      else if r < 32 \<or> r = 127 then [CHR 0x5C, CHR ''x'', lowerhex (r div 16), lowerhex r]
      else if 1114111 < r \<or> (55296 \<le> r \<and> r \<le> 57343) then
        [CHR 0x5C, CHR ''u'', CHR ''f'', CHR ''f'', CHR ''f'', CHR ''d'']
      else if r < 65536 then
        [CHR 0x5C, CHR ''u'', lowerhex (r div 4096), lowerhex (r div 256), lowerhex (r div 16),
         lowerhex r]
      else
        [CHR 0x5C, CHR ''U'', lowerhex (r div 268435456), lowerhex (r div 16777216),
         lowerhex (r div 1048576), lowerhex (r div 65536), lowerhex (r div 4096),
         lowerhex (r div 256), lowerhex (r div 16), lowerhex r])"

text \<open>
  One turn of the loop of \<open>appendQuotedWith\<close> on the string \<open>c # s\<close>: what it appends
  for the rune at the head (a byte that is not UTF-8 is written as \<open>\x\<close> and two digits),
  and the width of that rune.
\<close>

definition quoteStep :: "(int \<Rightarrow> bool) \<Rightarrow> char \<Rightarrow> string \<Rightarrow> string \<times> nat" where
  "quoteStep tables c s =
     (let r = (if of_char c < (128::int) then of_char c else fst (DecodeRuneInString (c # s)));
          width = (if of_char c < (128::int) then 1 else snd (DecodeRuneInString (c # s)))
      in if width = 1 \<and> r = RuneError
         then ([CHR 0x5C, CHR ''x'', lowerhex (of_char c div 16), lowerhex (of_char c)], 1)
         else (appendEscapedRune tables r, width))"

fun quoteLoop :: "(int \<Rightarrow> bool) \<Rightarrow> string \<Rightarrow> string" where
  "quoteLoop tables [] = []"
| "quoteLoop tables (c # s) =
     fst (quoteStep tables c s) @ quoteLoop tables (drop (snd (quoteStep tables c s) - 1) s)"

definition Quote :: "(int \<Rightarrow> bool) \<Rightarrow> string \<Rightarrow> string" where
  "Quote tables s = [CHR 0x22] @ quoteLoop tables s @ [CHR 0x22]"

text \<open>
  The parts of the Go library that an error message depends on and that are parameters
  here: the Unicode tables of \<open>strconv.IsPrint\<close>, and the message of the
  \<open>*time.ParseError\<close> for a value that the layout \<open>2006-01-02\<close> does not parse.
\<close>

record Lib =
  PrintTables :: "int \<Rightarrow> bool"
  ParseErrorText :: "string \<Rightarrow> string"

text \<open>\<open>err.Error()\<close>.\<close>

fun Error_text :: "Lib \<Rightarrow> error \<Rightarrow> string" where
  "Error_text lib ErrInvalidCode = ''Invalid currency code''"
| "Error_text lib ErrInvalidDate = ''Oldest possible date is 1999-01-04''"
| "Error_text lib ErrInvalidDateFormat = ''Date format must be YYYY-MM-DD''"
| "Error_text lib ErrTimeframeExceeded = ''Maximum allowed timeframe is 365 days''"
| "Error_text lib ErrInvalidTimeFrame = ''From date must be older than To date''"
| "Error_text lib ErrInvalidAPIResponse = ''Unknown API error''"
| "Error_text lib (TimeParseError v) = ParseErrorText lib v"
| "Error_text lib (TypeAssertionError t) =
     ''interface conversion: interface {} is '' @ t @ '', not bool''"
| "Error_text lib (LibError m) = m"
| "Error_text lib (WrapDateFormat s e) =
     ''Date format must be YYYY-MM-DD'' @ '': parse '' @ Quote (PrintTables lib) s
       @ '' as 2006-01-02: '' @ Error_text lib e"
| "Error_text lib (WrapUnmarshal b e) =
     ''unmarshal '' @ Quote (PrintTables lib) b @ '': '' @ Error_text lib e"
| "Error_text lib (WrapAPIResponse b) =
     Quote (PrintTables lib) b @ '': '' @ ''Unknown API error''"

section \<open>The fetch pipeline\<close>

text \<open>
  What \<open>json.Unmarshal\<close> stores into an \<open>interface{}\<close>; a \<open>map[string]interface{}\<close> is an
  association list.
\<close>

datatype json =
    JNull
  | JBool bool
  | JNumber rat
  | JString string
  | JArray "json list"
  | JObject "(string \<times> json) list"

type_synonym payload = "(string \<times> json) list"

text \<open>
  The dynamic type of \<open>result[key]\<close>, as a type assertion that fails names it: \<open>nil\<close>
  for a missing key and for JSON's \<open>null\<close>.
\<close>

fun dynamicType :: "json option \<Rightarrow> string" where
  "dynamicType None = ''nil''"
| "dynamicType (Some JNull) = ''nil''"
| "dynamicType (Some (JBool b)) = ''bool''"
| "dynamicType (Some (JNumber x)) = ''float64''"
| "dynamicType (Some (JString x)) = ''string''"
| "dynamicType (Some (JArray xs)) = ''[]interface {}''"
| "dynamicType (Some (JObject m)) = ''map[string]interface {}''"

text \<open>Of the response \<open>get\<close> reads the body: \<open>Body\<close> is what \<open>io.ReadAll(resp.Body)\<close> returns.\<close>

record Response =
  Body :: "string res"

text \<open>
  The global \<open>Client\<close> and the collaborators of \<open>get\<close>: the access key, the HTTP client's
  \<open>Do\<close>, \<open>http.NewRequest("GET", url, nil)\<close> and \<open>json.Unmarshal\<close> into a nil map.
\<close>

record Env =
  AccessKey :: string
  NewRequest :: "string \<Rightarrow> Request res"
  Do :: "Request \<Rightarrow> Response res"
  Unmarshal :: "string \<Rightarrow> payload res"

text \<open>
  What a fetch can change or cause: \<open>Cache\<close> is the content of \<open>Client.Cache\<close> (the entries
  that have not expired), \<open>Sent\<close> the requests handed to \<open>Client.Do\<close> so far.
\<close>

record World =
  Cache :: "string \<Rightarrow> payload option"
  Sent :: "Request list"

definition get :: "Env \<Rightarrow> Exchange \<Rightarrow> string \<Rightarrow> query \<Rightarrow> World \<Rightarrow> payload res \<times> World" where
  "get env exchange url q w =
     (case NewRequest env url of
        Err e \<Rightarrow> (Err e, w)
      | Panic e \<Rightarrow> (Panic e, w)
      | Ok req0 \<Rightarrow>
     (case snd (processQuery (AccessKey env) req0 q) of
        Panic e \<Rightarrow> (Panic e, w)
      | ignored \<Rightarrow>
     (let req = fst (processQuery (AccessKey env) req0 q);
          cacheKey = URL_String (URL req)
      in
     (case (if CacheEnabled exchange then Cache w cacheKey else None) of
        Some response \<Rightarrow> (Ok response, w)
      | None \<Rightarrow>
     (let w1 = w\<lparr>Sent := Sent w @ [req]\<rparr> in
     (case Do env req of
        Err e \<Rightarrow> (Err e, w1)
      | Panic e \<Rightarrow> (Panic e, w1)
      | Ok resp \<Rightarrow>
     (case Body resp of
        Err e \<Rightarrow> (Err e, w1)
      | Panic e \<Rightarrow> (Panic e, w1)
      | Ok b \<Rightarrow>
     (case Unmarshal env b of
        Err e \<Rightarrow> (Err (WrapUnmarshal b e), w1)
      | Panic e \<Rightarrow> (Panic e, w1)
      | Ok result \<Rightarrow>
     (case map_of result ''success'' of
        Some (JBool success) \<Rightarrow>
          if \<not> success then (Err (WrapAPIResponse b), w1)
          else (Ok result,
                if CacheEnabled exchange
                then w1\<lparr>Cache := (Cache w1)(cacheKey \<mapsto> result)\<rparr>
                else w1)
      | other \<Rightarrow> (Panic (TypeAssertionError (dynamicType other)), w1))))))))))"

section \<open>The endpoints\<close>

definition baseURL :: string where
  "baseURL = ''https://api.exchangerate.host''"

definition latestURL :: string where
  "latestURL = baseURL @ ''/latest''"

text \<open>
  A stand-in for the collaborators, for running \<open>get\<close> on examples: \<open>http.NewRequest\<close> on
  a URL without query or fragment, a server that answers every request with \<open>body\<close>, and
  \<open>json.Unmarshal\<close> decoding that body to \<open>result\<close>.
\<close>

definition stubEnv :: "string \<Rightarrow> string \<Rightarrow> payload \<Rightarrow> Env" where
  "stubEnv key body result =
     \<lparr>AccessKey = key,
      NewRequest = (\<lambda>u. Ok \<lparr>URL = \<lparr>Prefix = u, ForceQuery = False, RawQuery = [], Suffix = []\<rparr>\<rparr>),
      Do = (\<lambda>req. Ok \<lparr>Body = Ok body\<rparr>),
      Unmarshal = (\<lambda>b. if b = body then Ok result else Err (LibError ''invalid character''))\<rparr>"

section \<open>Properties of code validation\<close>

text \<open>
  C8: ValidateCode succeeds exactly on the strings of length 3, whatever their characters,
  and fails with InvalidCode on every other string.
\<close>

theorem ValidateCode_iff_length_3:
  "(ValidateCode code = Ok ()) = (length code = 3) \<and>
   (if length code = 3 then ValidateCode code = Ok ()
    else ValidateCode code = Err ErrInvalidCode)"
  by (simp add: ValidateCode_def)

text \<open>
  C9: SetBase either succeeds and sets Base to the new code, or returns InvalidCode (when
  the code's length is not 3) and leaves Base as it was; CacheEnabled and isInitialized
  are the same after the call in both cases.
\<close>

theorem SetBase_sets_Base_or_fails:
  "(if length base = 3
    then SetBase exchange base = (exchange\<lparr>Exchange.Base := base\<rparr>, Ok ())
    else SetBase exchange base = (exchange, Err ErrInvalidCode)) \<and>
   CacheEnabled (fst (SetBase exchange base)) = CacheEnabled exchange \<and>
   isInitialized (fst (SetBase exchange base)) = isInitialized exchange \<and>
   Exchange.more (fst (SetBase exchange base)) = Exchange.more exchange"
  by (simp add: SetBase_def ValidateCode_def)

section \<open>Properties of date validation\<close>

lemma time_Parse_nsec: "time_Parse s = Ok t \<Longrightarrow> nsec t = 0"
  by (auto simp: time_Parse_def time_Date_def split: option.splits if_splits prod.splits)

lemma parseDate_nsec: "parseDate s = Ok t \<Longrightarrow> nsec t = 0"
  by (auto simp: parseDate_def time_Parse_nsec split: res.splits)

lemma parseDate_Err: "parseDate s = Err e \<Longrightarrow> errors_Is e ErrInvalidDateFormat"
  by (auto simp: parseDate_def split: res.splits)

lemma time_Parse_no_Panic: "time_Parse s \<noteq> Panic e"
  by (auto simp: time_Parse_def split: option.splits if_splits prod.splits)

lemma parseDate_no_Panic: "parseDate s \<noteq> Panic e"
  using time_Parse_no_Panic by (auto simp: parseDate_def split: res.splits)

lemma parseDate_oldest: "parseDate ''1999-01-03'' = Ok \<lparr>sec = 63050918400, nsec = 0\<rparr>"
  by code_simp

subsection \<open>The order of dates\<close>

lemma div_step:
  fixes y n :: int
  assumes "0 < n"
  shows "y div n = (y - 1) div n + (if y mod n = 0 then 1 else 0)"
proof -
  define q r where "q = (y - 1) div n" and "r = (y - 1) mod n"
  have y: "y = n * q + (r + 1)" and r: "0 \<le> r" "r < n"
    using assms by (simp_all add: q_def r_def)
  show ?thesis
  proof (cases "r + 1 = n")
    case True
    with y have "y = n * (q + 1) + 0" by (simp add: algebra_simps)
    from int_div_pos_eq [OF this] int_mod_pos_eq [OF this] assms
    show ?thesis by (simp add: q_def)
  next
    case False
    with r have "0 \<le> r + 1" "r + 1 < n" by simp_all
    from int_div_pos_eq [OF y this] int_mod_pos_eq [OF y this] r
    show ?thesis by (simp add: q_def)
  qed
qed

lemma daysSinceEpoch_step:
  "daysSinceEpoch (y + 1) = daysSinceEpoch y + (if isLeap y then 366 else 365)"
proof -
  define a b c where "a = (y - 1) div 4" and "b = (y - 1) div 100" and "c = (y - 1) div 400"
  define p4 p100 p400 where "p4 = (y mod 4 = 0)" and "p100 = (y mod 100 = 0)"
    and "p400 = (y mod 400 = 0)"
  have d4: "y div 4 = a + (if p4 then 1 else 0)"
    and d100: "y div 100 = b + (if p100 then 1 else 0)"
    and d400: "y div 400 = c + (if p400 then 1 else 0)"
    unfolding a_def b_def c_def p4_def p100_def p400_def
    by (rule div_step, simp)+
  have "(4::int) dvd 100" "(100::int) dvd 400" by simp_all
  then have imp: "p400 \<Longrightarrow> p100" "p100 \<Longrightarrow> p4"
    unfolding p4_def p100_def p400_def mod_eq_0_iff_dvd by (blast intro: dvd_trans)+
  have next_year: "daysSinceEpoch (y + 1) = 365 * y + y div 4 - y div 100 + y div 400"
    by (simp add: daysSinceEpoch_def)
  have this_year: "daysSinceEpoch y = 365 * (y - 1) + a - b + c"
    by (simp add: daysSinceEpoch_def a_def b_def c_def)
  have leap: "isLeap y = (if \<not> p4 then False else if \<not> p100 then True else p400)"
    by (simp add: isLeap_def p4_def p100_def p400_def)
  show ?thesis
    unfolding next_year this_year leap d4 d100 d400
    using imp by (cases p4; cases p100; cases p400) simp_all
qed

lemma daysSinceEpoch_mono: "y \<le> y' \<Longrightarrow> daysSinceEpoch y \<le> daysSinceEpoch y'"
proof (induction y' rule: int_ge_induct)
  case base
  show ?case by simp
next
  case (step i)
  have "daysSinceEpoch i \<le> daysSinceEpoch (i + 1)"
    unfolding daysSinceEpoch_step by simp
  with step show ?case by simp
qed


lemma month_cases:
  fixes m :: int
  shows "1 \<le> m \<Longrightarrow> m \<le> 12 \<Longrightarrow>
    m = 1 \<or> m = 2 \<or> m = 3 \<or> m = 4 \<or> m = 5 \<or> m = 6 \<or> m = 7 \<or> m = 8 \<or> m = 9 \<or> m = 10 \<or>
    m = 11 \<or> m = 12"
  by arith

text \<open>The day of the year that \<open>time_Date\<close> adds to the days before the year.\<close>

lemma yday_bounds:
  assumes "1 \<le> m" "m \<le> 12" "1 \<le> d" "d \<le> daysIn m y"
  shows "0 \<le> daysBefore (m - 1) + (if isLeap y \<and> 3 \<le> m then 1 else 0) + (d - 1)"
    and "daysBefore (m - 1) + (if isLeap y \<and> 3 \<le> m then 1 else 0) + (d - 1)
           < (if isLeap y then 366 else 365)"
  using month_cases [OF assms(1,2)] assms(3,4)
  by (auto simp: daysBefore_def daysIn_def)

lemma yday_less:
  assumes "1 \<le> m" "m \<le> 12" "1 \<le> d" "d \<le> daysIn m y"
    and "1 \<le> m'" "m' \<le> 12" "1 \<le> d'" "d' \<le> daysIn m' y"
    and "m < m' \<or> (m = m' \<and> d < d')"
  shows "daysBefore (m - 1) + (if isLeap y \<and> 3 \<le> m then 1 else 0) + (d - 1)
       < daysBefore (m' - 1) + (if isLeap y \<and> 3 \<le> m' then 1 else 0) + (d' - 1)"
proof (cases "m = m'")
  case True
  with assms(9) show ?thesis by simp
next
  case False
  with assms(9) have lt: "m < m'" by simp
  have "daysBefore (m - 1) + (if isLeap y \<and> 3 \<le> m then 1 else 0) + daysIn m y
      \<le> daysBefore (m' - 1) + (if isLeap y \<and> 3 \<le> m' then 1 else 0)"
    using month_cases [OF assms(1,2)] month_cases [OF assms(5,6)] lt
    by (auto simp: daysBefore_def daysIn_def)
  with assms(4,7) show ?thesis by simp
qed

lemma time_Date_sec:
  "sec (time_Date y m d)
     = (daysSinceEpoch y + (daysBefore (m - 1) + (if isLeap y \<and> 3 \<le> m then 1 else 0) + (d - 1)))
       * 86400"
  by (simp add: time_Date_def)

lemma time_Date_less_year:
  assumes "1 \<le> m" "m \<le> 12" "1 \<le> d" "d \<le> daysIn m y"
    and "1 \<le> m'" "m' \<le> 12" "1 \<le> d'" "d' \<le> daysIn m' y'"
    and "y < y'"
  shows "sec (time_Date y m d) < sec (time_Date y' m' d')"
proof -
  let ?yd = "daysBefore (m - 1) + (if isLeap y \<and> 3 \<le> m then 1 else 0) + (d - 1)"
  let ?yd' = "daysBefore (m' - 1) + (if isLeap y' \<and> 3 \<le> m' then 1 else 0) + (d' - 1)"
  have "daysSinceEpoch y + ?yd < daysSinceEpoch (y + 1)"
    unfolding daysSinceEpoch_step using yday_bounds(2) [OF assms(1-4)] by simp
  also from assms(9) have "\<dots> \<le> daysSinceEpoch y'" by (intro daysSinceEpoch_mono) simp
  also have "\<dots> \<le> daysSinceEpoch y' + ?yd'" using yday_bounds(1) [OF assms(5-8)] by simp
  finally show ?thesis unfolding time_Date_sec by simp
qed

text \<open>
  \<open>Before\<close> on two dates built by \<open>time_Date\<close> is the order of the calendar: by year,
  then by month, then by day.
\<close>

lemma Before_time_Date:
  assumes "1 \<le> m" "m \<le> 12" "1 \<le> d" "d \<le> daysIn m y"
    and "1 \<le> m'" "m' \<le> 12" "1 \<le> d'" "d' \<le> daysIn m' y'"
  shows "Before (time_Date y m d) (time_Date y' m' d')
       = (y < y' \<or> (y = y' \<and> (m < m' \<or> (m = m' \<and> d < d'))))"
proof -
  have B: "Before (time_Date y m d) (time_Date y' m' d')
         = (sec (time_Date y m d) < sec (time_Date y' m' d'))"
    by (simp add: Before_def time_Date_def)
  consider (lt) "y < y'" | (gt) "y' < y" | (eq) "y = y'" by linarith
  then show ?thesis
  proof cases
    case lt
    with time_Date_less_year [OF assms this] show ?thesis unfolding B by simp
  next
    case gt
    with time_Date_less_year [OF assms(5-8) assms(1-4) this] show ?thesis unfolding B by simp
  next
    case eq
    consider (a) "m < m' \<or> (m = m' \<and> d < d')" | (b) "m' < m \<or> (m' = m \<and> d' < d)"
      | (c) "m = m'" "d = d'" by linarith
    then show ?thesis
    proof cases
      case a
      with yday_less [OF assms(1-4) assms(5-8) [folded eq] a] eq show ?thesis
        unfolding B time_Date_sec by simp
    next
      case b
      with yday_less [OF assms(5-8) [folded eq] assms(1-4) b] eq show ?thesis
        unfolding B time_Date_sec by auto
    next
      case c
      with eq show ?thesis unfolding B by simp
    qed
  qed
qed

lemma getLongYear_Some:
  assumes "getLongYear s = Some (year, v1)"
  shows "\<exists>y1 y2 y3 y4. s = y1 # y2 # y3 # y4 # v1 \<and> isDigit y1 \<and> isDigit y2 \<and> isDigit y3 \<and>
           isDigit y4 \<and>
           year = ((digitVal y1 * 10 + digitVal y2) * 10 + digitVal y3) * 10 + digitVal y4"
  using assms
  by (cases s; cases "tl s"; cases "tl (tl s)"; cases "tl (tl (tl s))")
     (auto simp: getLongYear_def split: if_splits)

lemma getnum_Some:
  assumes "getnum v = Some (n, rest)"
  shows "\<exists>a b. v = a # b # rest \<and> isDigit a \<and> isDigit b \<and> n = digitVal a * 10 + digitVal b"
  using assms by (cases v rule: getnum.cases) (auto split: if_splits)

lemma skipDash_Some: "skipDash v = Some rest \<Longrightarrow> v = CHR ''-'' # rest"
  by (cases v) (auto split: if_splits)

text \<open>
  A string that \<open>time.Parse\<close> accepts is four digits, a dash, two digits, a dash and two
  digits, with the month in 1..12 and the day within the month; the time is \<open>time_Date\<close>
  of the three numbers.
\<close>

lemma time_Parse_Ok:
  assumes "time_Parse s = Ok t"
  shows "\<exists>y1 y2 y3 y4 m1 m2 d1 d2.
           s = [y1, y2, y3, y4, CHR ''-'', m1, m2, CHR ''-'', d1, d2] \<and>
           list_all isDigit [y1, y2, y3, y4, m1, m2, d1, d2] \<and>
           1 \<le> digitVal m1 * 10 + digitVal m2 \<and> digitVal m1 * 10 + digitVal m2 \<le> 12 \<and>
           1 \<le> digitVal d1 * 10 + digitVal d2 \<and>
           digitVal d1 * 10 + digitVal d2
             \<le> daysIn (digitVal m1 * 10 + digitVal m2)
                  (((digitVal y1 * 10 + digitVal y2) * 10 + digitVal y3) * 10 + digitVal y4) \<and>
           t = time_Date (((digitVal y1 * 10 + digitVal y2) * 10 + digitVal y3) * 10 + digitVal y4)
                 (digitVal m1 * 10 + digitVal m2) (digitVal d1 * 10 + digitVal d2)"
proof -
  from assms obtain year v1 v2 month v3 v4 day where
    p: "getLongYear s = Some (year, v1)" "skipDash v1 = Some v2" "getnum v2 = Some (month, v3)"
      "skipDash v3 = Some v4" "getnum v4 = Some (day, [])"
    and r: "1 \<le> month" "month \<le> 12" "1 \<le> day" "day \<le> daysIn month year"
    and t: "t = time_Date year month day"
    by (auto simp: time_Parse_def split: option.splits if_splits)
  from getLongYear_Some [OF p(1)] skipDash_Some [OF p(2)] getnum_Some [OF p(3)]
    skipDash_Some [OF p(4)] getnum_Some [OF p(5)] r t
  show ?thesis by auto
qed

lemma parseDate_oldest_Date: "parseDate ''1999-01-03'' = Ok (time_Date 1999 1 3)"
  by code_simp

text \<open>
  The dates that \<open>ValidateDate\<close> refuses as too old are the dates before 1999-01-03: the
  floor itself passes.
\<close>

lemma ValidateDate_floor:
  assumes "time_Parse s = Ok (time_Date y m d)"
    and "1 \<le> m" "m \<le> 12" "1 \<le> d" "d \<le> daysIn m y"
  shows "ValidateDate s
       = (if y < 1999 \<or> (y = 1999 \<and> m = 1 \<and> d < 3) then Err ErrInvalidDate else Ok ())"
proof -
  have "Before (time_Date y m d) (time_Date 1999 1 3)
      = (y < 1999 \<or> (y = 1999 \<and> (m < 1 \<or> (m = 1 \<and> d < 3))))"
    by (rule Before_time_Date [OF assms(2-5)]) (simp_all add: daysIn_def daysBefore_def)
  moreover from assms(1) have "parseDate s = Ok (time_Date y m d)"
    by (simp add: parseDate_def)
  ultimately show ?thesis
    using assms(2) by (auto simp: ValidateDate_def parseDate_oldest_Date)
qed

text \<open>
  On two strings that parse, \<open>Before\<close> compares the dates they write: the years, then
  the months, then the days.
\<close>

lemma Before_parsed:
  assumes "time_Parse [y1, y2, y3, y4, CHR ''-'', m1, m2, CHR ''-'', d1, d2] = Ok t"
    and "time_Parse [y1', y2', y3', y4', CHR ''-'', m1', m2', CHR ''-'', d1', d2'] = Ok t'"
  shows "Before t t'
       = (let y = ((digitVal y1 * 10 + digitVal y2) * 10 + digitVal y3) * 10 + digitVal y4;
              m = digitVal m1 * 10 + digitVal m2;
              d = digitVal d1 * 10 + digitVal d2;
              y' = ((digitVal y1' * 10 + digitVal y2') * 10 + digitVal y3') * 10 + digitVal y4';
              m' = digitVal m1' * 10 + digitVal m2';
              d' = digitVal d1' * 10 + digitVal d2'
          in y < y' \<or> (y = y' \<and> (m < m' \<or> (m = m' \<and> d < d'))))"
proof -
  from time_Parse_Ok [OF assms(1)] time_Parse_Ok [OF assms(2)]
  show ?thesis unfolding Let_def
    by (auto simp: Before_time_Date)
qed

subsection \<open>The floor and the time frame\<close>

text \<open>
  C2, at the dates the claim names: \<open>ValidateDate("1999-01-03")\<close> returns \<open>nil\<close>, where the
  claim and the text of \<open>ErrInvalidDate\<close> ("Oldest possible date is 1999-01-04") want
  InvalidDate. The floor the code compares with is 1999-01-03 itself, and \<open>Before\<close> is
  strict: 1999-01-02 is the latest date refused.
\<close>

theorem ValidateDate_accepts_1999_01_03:
  "ValidateDate ''1999-01-03'' = Ok () \<and>
   ValidateDate ''1999-01-02'' = Err ErrInvalidDate \<and>
   ValidateDate ''1999-01-04'' = Ok () \<and>
   ValidateDate ''99-1-4'' = Err (WrapDateFormat ''99-1-4'' (TimeParseError ''99-1-4''))"
  by code_simp

text \<open>
  On two times without nanoseconds, the later one second: the comparison that
  \<open>ValidateTimeFrame\<close> makes on the possibly saturated \<open>Sub\<close> is the comparison of the true
  span with the threshold.
\<close>

lemma Hours_Sub_whole:
  assumes "nsec t = 0" "nsec u = 0" "sec u \<le> sec t"
  shows "(8759992992006 / 1000000000 < Hours (Sub t u))
       = (8759992992006 / 1000000000 < (of_int (sec t - sec u) / 3600 :: rat))"
proof (cases "(sec t - sec u) * 1000000000 \<le> maxDuration")
  case True
  with assms have "Sub t u = (sec t - sec u) * 1000000000"
    by (simp add: Sub_def Let_def minDuration_def maxDuration_def)
  then have "Hours (Sub t u) = of_int (sec t - sec u) / 3600"
    by (simp add: Hours_def)
  then show ?thesis by (simp only:)
next
  case False
  with assms have s: "Sub t u = maxDuration"
    by (simp add: Sub_def Let_def minDuration_def maxDuration_def)
  from False have "9223372036 < sec t - sec u" by (simp add: maxDuration_def)
  then have "(9223372036::rat) < of_int (sec t - sec u)"
    by (metis of_int_less_iff of_int_numeral)
  then have "8759992992006 / 1000000000 < (of_int (sec t - sec u) / 3600 :: rat)"
    by (simp add: field_simps)
  moreover have "8759992992006 / 1000000000 < Hours maxDuration"
    by (simp add: Hours_def maxDuration_def)
  ultimately show ?thesis using s by simp
qed

text \<open>
  C4: when both dates parse, ValidateTimeFrame fails with InvalidTimeFrame if \<open>to\<close> is
  before \<open>from\<close>, succeeds if it is not and the elapsed span (the seconds between the two
  over 3600) is at most 8759.992992006 hours, and fails with TimeframeExceeded if the span
  is longer. When \<open>from\<close> does not parse, or \<open>from\<close> parses and \<open>to\<close> does not, the error
  of \<open>parseDate\<close> is returned, which wraps InvalidDateFormat. (By \<open>Before_parsed\<close>,
  \<open>Before\<close> on two parsed strings is the order of the dates they write.)
\<close>

theorem ValidateTimeFrame_cases:
  "(parseDate from = Ok tf \<and> parseDate to = Ok tt \<longrightarrow>
      ValidateTimeFrame (from, to) =
        (if Before tt tf then Err ErrInvalidTimeFrame
         else if (of_int (sec tt - sec tf) / 3600 :: rat) \<le> 8759992992006 / 1000000000 then Ok ()
         else Err ErrTimeframeExceeded)) \<and>
   (parseDate from = Err e \<longrightarrow>
      ValidateTimeFrame (from, to) = Err e \<and> errors_Is e ErrInvalidDateFormat) \<and>
   (parseDate from = Ok tf \<and> parseDate to = Err e \<longrightarrow>
      ValidateTimeFrame (from, to) = Err e \<and> errors_Is e ErrInvalidDateFormat)"
proof (intro conjI impI)
  assume a: "parseDate from = Ok tf \<and> parseDate to = Ok tt"
  then have n: "nsec tf = 0" "nsec tt = 0" using parseDate_nsec by blast+
  show "ValidateTimeFrame (from, to) =
        (if Before tt tf then Err ErrInvalidTimeFrame
         else if (of_int (sec tt - sec tf) / 3600 :: rat) \<le> 8759992992006 / 1000000000 then Ok ()
         else Err ErrTimeframeExceeded)"
  proof (cases "Before tt tf")
    case True
    with a show ?thesis by (simp add: ValidateTimeFrame_def TimeFrame_at_def)
  next
    case False
    with n have "sec tf \<le> sec tt" by (simp add: Before_def)
    from Hours_Sub_whole [OF n(2) n(1) this] a False show ?thesis
      by (simp add: ValidateTimeFrame_def TimeFrame_at_def not_less [symmetric])
  qed
next
  assume "parseDate from = Err e"
  then show "ValidateTimeFrame (from, to) = Err e"
    by (simp add: ValidateTimeFrame_def TimeFrame_at_def)
next
  assume "parseDate from = Err e"
  then show "errors_Is e ErrInvalidDateFormat" by (rule parseDate_Err)
next
  assume "parseDate from = Ok tf \<and> parseDate to = Err e"
  then show "ValidateTimeFrame (from, to) = Err e"
    by (simp add: ValidateTimeFrame_def TimeFrame_at_def)
next
  assume "parseDate from = Ok tf \<and> parseDate to = Err e"
  then show "errors_Is e ErrInvalidDateFormat" using parseDate_Err by blast
qed

lemma parseDate_2021_01_01: "parseDate ''2021-01-01'' = Ok \<lparr>sec = 63745056000, nsec = 0\<rparr>"
  by code_simp

lemma parseDate_2021_12_31: "parseDate ''2021-12-31'' = Ok \<lparr>sec = 63776505600, nsec = 0\<rparr>"
  by code_simp

lemma parseDate_2022_01_01: "parseDate ''2022-01-01'' = Ok \<lparr>sec = 63776592000, nsec = 0\<rparr>"
  by code_simp

lemma parseDate_slashes:
  "parseDate ''2021/01/01'' = Err (WrapDateFormat ''2021/01/01'' (TimeParseError ''2021/01/01''))"
  by code_simp

text \<open>
  The theorem at a year of 364 days (accepted), at a year of 365 days, which is 8760 hours
  (refused), at the two dates swapped, and at a date with slashes in either place.
\<close>

theorem ValidateTimeFrame_cases_witness:
  "ValidateTimeFrame (''2021-01-01'', ''2021-12-31'') = Ok () \<and>
   ValidateTimeFrame (''2021-01-01'', ''2022-01-01'') = Err ErrTimeframeExceeded \<and>
   ValidateTimeFrame (''2021-12-31'', ''2021-01-01'') = Err ErrInvalidTimeFrame \<and>
   ValidateTimeFrame (''2021/01/01'', ''2021-12-31'')
     = Err (WrapDateFormat ''2021/01/01'' (TimeParseError ''2021/01/01'')) \<and>
   ValidateTimeFrame (''2021-01-01'', ''2021/01/01'')
     = Err (WrapDateFormat ''2021/01/01'' (TimeParseError ''2021/01/01'')) \<and>
   errors_Is (WrapDateFormat ''2021/01/01'' (TimeParseError ''2021/01/01'')) ErrInvalidDateFormat"
  using
    ValidateTimeFrame_cases [of "''2021-01-01''" "\<lparr>sec = 63745056000, nsec = 0\<rparr>"
      "''2021-12-31''" "\<lparr>sec = 63776505600, nsec = 0\<rparr>"]
    ValidateTimeFrame_cases [of "''2021-01-01''" "\<lparr>sec = 63745056000, nsec = 0\<rparr>"
      "''2022-01-01''" "\<lparr>sec = 63776592000, nsec = 0\<rparr>"]
    ValidateTimeFrame_cases [of "''2021-12-31''" "\<lparr>sec = 63776505600, nsec = 0\<rparr>"
      "''2021-01-01''" "\<lparr>sec = 63745056000, nsec = 0\<rparr>"]
    ValidateTimeFrame_cases [of "''2021/01/01''" _ "''2021-12-31''" _
      "WrapDateFormat ''2021/01/01'' (TimeParseError ''2021/01/01'')"]
    ValidateTimeFrame_cases [of "''2021-01-01''" "\<lparr>sec = 63745056000, nsec = 0\<rparr>"
      "''2021/01/01''" _ "WrapDateFormat ''2021/01/01'' (TimeParseError ''2021/01/01'')"]
  by (simp add: parseDate_2021_01_01 parseDate_2021_12_31 parseDate_2022_01_01
        parseDate_slashes Before_def)

section \<open>Properties of the request encoder\<close>

subsection \<open>What the encoder writes\<close>

declare parseQuery.simps [simp del]

lemma Values_at_Add:
  "Values_at (Add k x v) k' = (if k' = k then Values_at v k @ [x] else Values_at v k')"
  by (induction v) (auto simp: Values_at_def)

lemma keys_Add: "fst ` set (Add k x v) = insert k (fst ` set v)"
proof (induction v)
  case Nil
  show ?case by simp
next
  case (Cons p v)
  obtain k' vs where p: "p = (k', vs)" by (cases p)
  show ?case
  proof (cases "k' = k")
    case True
    with p show ?thesis by auto
  next
    case False
    with p Cons show ?thesis by auto
  qed
qed

lemma distinct_Add: "distinct (map fst v) \<Longrightarrow> distinct (map fst (Add k x v))"
  by (induction v) (auto simp: keys_Add)

lemma distinct_parseQuery:
  "distinct (map fst m) \<Longrightarrow> distinct (map fst (parseQuery m s))"
proof (induction m s rule: parseQuery.induct)
  case (1 m query)
  show ?case
    using 1 by (subst parseQuery.simps) (auto simp: Let_def distinct_Add split: option.splits)
qed

lemma sorted_concat_replicate:
  "sorted ks \<Longrightarrow> sorted (concat (map (\<lambda>k. replicate (n k) k) ks))"
  by (induction ks) (auto simp: sorted_append)

lemma sorted_Encode_pairs: "sorted (map fst (Encode_pairs v))"
proof -
  have "map fst (Encode_pairs v)
      = concat (map (\<lambda>k. replicate (length (Values_at v k)) k) (sort (map fst v)))"
    by (simp add: Encode_pairs_def map_concat comp_def map_replicate_const)
  then show ?thesis by (simp add: sorted_concat_replicate)
qed

lemma filter_concat_key:
  "distinct ks \<Longrightarrow>
   filter (\<lambda>p. fst p = k) (concat (map (\<lambda>k'. map (Pair k') (g k')) ks))
     = (if k \<in> set ks then map (Pair k) (g k) else [])"
  by (induction ks) (auto simp: filter_empty_conv)

lemma Values_at_absent: "k \<notin> set (map fst v) \<Longrightarrow> Values_at v k = []"
  by (simp add: Values_at_def map_of_eq_None_iff [THEN iffD2])

lemma filter_Encode_pairs:
  assumes "distinct (map fst v)"
  shows "filter (\<lambda>p. fst p = k) (Encode_pairs v) = map (Pair k) (Values_at v k)"
proof -
  from assms have "distinct (sort (map fst v))" by simp
  from filter_concat_key [OF this, of k "Values_at v"] show ?thesis
    using Values_at_absent [of k v] by (auto simp: Encode_pairs_def)
qed

subsection \<open>Parsing what the encoder wrote\<close>

lemma upperhex_all_hex: "list_all ishex ''0123456789ABCDEF''"
  by code_simp

lemma upperhex_values: "map unhex ''0123456789ABCDEF'' = [0..<16]"
  by code_simp

lemma upperhex_ishex: "ishex (upperhex n)"
proof -
  have "upperhex n \<in> set ''0123456789ABCDEF''"
    unfolding upperhex_def by (rule nth_mem) simp
  with upperhex_all_hex show ?thesis
    unfolding list_all_iff by blast
qed

lemma unhex_upperhex: "unhex (upperhex n) = n mod 16"
proof -
  have "unhex (upperhex n) = map unhex ''0123456789ABCDEF'' ! (n mod 16)"
    unfolding upperhex_def by (rule nth_map [symmetric]) simp
  also have "\<dots> = [0..<16] ! (n mod 16)" by (simp only: upperhex_values)
  also have "\<dots> = n mod 16" by (simp del: upt.simps)
  finally show ?thesis .
qed

lemma keeps_not_special:
  "\<not> shouldEscape c \<Longrightarrow> c \<noteq> CHR ''%'' \<and> c \<noteq> CHR ''+'' \<and> c \<noteq> CHR ''&'' \<and> c \<noteq> CHR ''='' \<and> c \<noteq> CHR '';''"
  by (auto simp: shouldEscape_def isAlnum_def split: if_splits)

lemma QueryUnescape_escapeByte:
  "QueryUnescape (escapeByte c @ s) = map_option ((#) c) (QueryUnescape s)"
proof (cases "shouldEscape c")
  case False
  with keeps_not_special [OF False] show ?thesis by (simp add: escapeByte_def)
next
  case True
  have "of_char c div 16 < (16::nat)"
    by (simp add: less_mult_imp_div_less)
  then have "unhex (upperhex (of_char c div 16)) * 16 + unhex (upperhex (of_char c mod 16)) = of_char c"
    by (simp add: unhex_upperhex)
  with True show ?thesis
    by (simp add: escapeByte_def upperhex_ishex)
qed

lemma QueryUnescape_QueryEscape_append:
  "QueryUnescape (QueryEscape s @ t) = map_option ((@) s) (QueryUnescape t)"
proof (induction s)
  case Nil
  show ?case by (simp add: QueryEscape_def option.map_ident)
next
  case (Cons c s)
  then show ?case
    by (simp add: QueryEscape_def QueryUnescape_escapeByte option.map_comp comp_def)
qed

lemma QueryUnescape_QueryEscape: "QueryUnescape (QueryEscape s) = Some s"
  using QueryUnescape_QueryEscape_append [of s "[]"] by simp


lemma upperhex_not_separator:
  "upperhex n \<noteq> CHR ''&'' \<and> upperhex n \<noteq> CHR ''='' \<and> upperhex n \<noteq> CHR '';''"
proof -
  have "upperhex n \<in> set ''0123456789ABCDEF''"
    unfolding upperhex_def by (rule nth_mem) simp
  then show ?thesis by auto
qed

lemma escapeByte_no_separator:
  "c' \<in> set (escapeByte c) \<Longrightarrow> c' \<noteq> CHR ''&'' \<and> c' \<noteq> CHR ''='' \<and> c' \<noteq> CHR '';''"
  using keeps_not_special [of c] upperhex_not_separator
  by (auto simp: escapeByte_def split: if_splits)

lemma QueryEscape_no_separator:
  "c \<in> set (QueryEscape s) \<Longrightarrow> c \<noteq> CHR ''&'' \<and> c \<noteq> CHR ''='' \<and> c \<noteq> CHR '';''"
  using escapeByte_no_separator by (auto simp: QueryEscape_def)

lemma Cut_at_sep: "sep \<notin> set a \<Longrightarrow> Cut (a @ sep # b) sep = (a, b)"
  by (induction a) (auto simp: Cut_def)

lemma Cut_no_sep: "sep \<notin> set a \<Longrightarrow> Cut a sep = (a, [])"
  by (induction a) (auto simp: Cut_def)

lemma Encode_pair_no_amp: "CHR ''&'' \<notin> set (Encode_pair p)" "CHR '';'' \<notin> set (Encode_pair p)"
  using QueryEscape_no_separator by (auto simp: Encode_pair_def)

lemma Encode_pair_Cut:
  "Cut (Encode_pair p) (CHR ''='') = (QueryEscape (fst p), QueryEscape (snd p))"
proof -
  have "CHR ''='' \<notin> set (QueryEscape (fst p))" using QueryEscape_no_separator by blast
  from Cut_at_sep [OF this] show ?thesis by (simp add: Encode_pair_def)
qed

lemma Encode_pair_not_Nil: "Encode_pair p \<noteq> []"
  by (simp add: Encode_pair_def)

lemma parseQuery_Nil: "parseQuery m [] = m"
  by (subst parseQuery.simps) simp

lemma parseQuery_pair_amp:
  "parseQuery m (Encode_pair p @ CHR ''&'' # rest) = parseQuery (Add (fst p) (snd p) m) rest"
  by (subst parseQuery.simps)
     (simp add: Cut_at_sep [OF Encode_pair_no_amp(1)] Encode_pair_no_amp Encode_pair_not_Nil
        Encode_pair_Cut QueryUnescape_QueryEscape)

lemma parseQuery_pair_last:
  "parseQuery m (Encode_pair p) = Add (fst p) (snd p) m"
  by (subst parseQuery.simps)
     (simp add: Cut_no_sep [OF Encode_pair_no_amp(1)] Encode_pair_no_amp Encode_pair_not_Nil
        Encode_pair_Cut QueryUnescape_QueryEscape parseQuery_Nil)

lemma parseQuery_Join:
  "parseQuery m (Join (map Encode_pair ps) ''&'')
     = foldl (\<lambda>m p. Add (fst p) (snd p) m) m ps"
proof (induction ps arbitrary: m)
  case Nil
  show ?case by (simp add: parseQuery_Nil)
next
  case (Cons p ps)
  show ?case
  proof (cases ps)
    case Nil
    then show ?thesis by (simp add: parseQuery_pair_last)
  next
    case (Cons p' ps')
    with Cons.IH [of "Add (fst p) (snd p) m"] show ?thesis
      by (simp add: parseQuery_pair_amp)
  qed
qed

lemma Values_at_foldl_Add:
  "Values_at (foldl (\<lambda>m p. Add (fst p) (snd p) m) m ps) k
     = Values_at m k @ map snd (filter (\<lambda>p. fst p = k) ps)"
  by (induction ps arbitrary: m) (auto simp: Values_at_Add)

text \<open>Parsing what \<open>Encode\<close> wrote gives the values back, key by key.\<close>

lemma Values_at_parseQuery_Encode:
  assumes "distinct (map fst v)"
  shows "Values_at (parseQuery [] (Encode v)) k = Values_at v k"
proof -
  have "Values_at (parseQuery [] (Encode v)) k
      = map snd (filter (\<lambda>p. fst p = k) (Encode_pairs v))"
  proof -
    have "Values_at [] k = []" by (simp add: Values_at_def)
    then show ?thesis by (simp add: Encode_def parseQuery_Join Values_at_foldl_Add)
  qed
  also have "\<dots> = Values_at v k"
    by (simp add: filter_Encode_pairs [OF assms] comp_def)
  finally show ?thesis .
qed

lemma QueryEscape_inject: "QueryEscape s = QueryEscape s' \<Longrightarrow> s = s'"
proof -
  assume "QueryEscape s = QueryEscape s'"
  then have "QueryUnescape (QueryEscape s) = QueryUnescape (QueryEscape s')" by (simp only:)
  then show ?thesis by (simp only: QueryUnescape_QueryEscape option.inject)
qed

lemma Encode_pair_inject: "Encode_pair p = Encode_pair p' \<Longrightarrow> p = p'"
proof -
  assume "Encode_pair p = Encode_pair p'"
  then have "Cut (Encode_pair p) (CHR ''='') = Cut (Encode_pair p') (CHR ''='')"
    by (simp only:)
  then have "QueryEscape (fst p) = QueryEscape (fst p')" "QueryEscape (snd p) = QueryEscape (snd p')"
    by (simp_all only: Encode_pair_Cut prod.inject)
  then have "fst p = fst p'" "snd p = snd p'" by (blast dest: QueryEscape_inject)+
  then show ?thesis by (rule prod_eqI)
qed

lemma Join_Encode_pair_Cut:
  "Cut (Join (map Encode_pair (p # ps)) ''&'') (CHR ''&'')
     = (Encode_pair p, Join (map Encode_pair ps) ''&'')"
proof (cases ps)
  case Nil
  then show ?thesis by (simp add: Cut_no_sep Encode_pair_no_amp)
next
  case (Cons p' ps')
  have "Join (map Encode_pair (p # p' # ps')) ''&''
      = Encode_pair p @ CHR ''&'' # Join (map Encode_pair (p' # ps')) ''&''"
    by simp
  with Cons show ?thesis by (simp only: Cut_at_sep [OF Encode_pair_no_amp(1)])
qed

lemma Join_Encode_pair_not_Nil: "Join (map Encode_pair (p # ps)) ''&'' \<noteq> []"
  by (cases ps) (simp_all add: Encode_pair_not_Nil)


text \<open>A raw query is the encoding of at most one list of pairs.\<close>

lemma Join_Encode_pair_inject:
  "Join (map Encode_pair ps) ''&'' = Join (map Encode_pair ps') ''&'' \<Longrightarrow> ps = ps'"
proof (induction ps arbitrary: ps')
  case Nil
  show ?case
  proof (cases ps')
    case Nil
    then show ?thesis by simp
  next
    case (Cons p' ps'')
    from Nil have "Join (map Encode_pair ps') ''&'' = []" by simp
    with Cons Join_Encode_pair_not_Nil [of p' ps''] show ?thesis by (simp only:)
  qed
next
  case (Cons p ps)
  show ?case
  proof (cases ps')
    case Nil
    with Cons.prems have "Join (map Encode_pair (p # ps)) ''&'' = []" by simp
    with Join_Encode_pair_not_Nil [of p ps] show ?thesis by (simp only:)
  next
    case (Cons p' ps'')
    from Cons.prems have "Cut (Join (map Encode_pair (p # ps)) ''&'') (CHR ''&'')
        = Cut (Join (map Encode_pair (p' # ps'')) ''&'') (CHR ''&'')"
      unfolding Cons by (simp only:)
    then have e: "Encode_pair p = Encode_pair p'"
      and j: "Join (map Encode_pair ps) ''&'' = Join (map Encode_pair ps'') ''&''"
      by (simp_all only: Join_Encode_pair_Cut prod.inject)
    from e have "p = p'" by (rule Encode_pair_inject)
    moreover from j have "ps = ps''" by (rule Cons.IH)
    ultimately show ?thesis unfolding Cons by (simp only:)
  qed
qed

subsection \<open>The stages of processQuery\<close>

lemma bind_res_eq_Ok: "(bind_res r f = Ok y) = (\<exists>x. r = Ok x \<and> f x = Ok y)"
  by (cases r) auto

lemma bind_res_assoc: "bind_res (bind_res r f) g = bind_res r (\<lambda>x. bind_res (f x) g)"
  by (cases r) auto

lemma ValidateDates_one: "ValidateDates tf [0..<1] = ValidateDate (fst tf)"
  by (cases "ValidateDate (fst tf)") (simp_all add: TimeFrame_at_def)

lemma stage_checked:
  "bind_res (if c then bind_res V (\<lambda>u. Ok A) else Ok B) f
     = bind_res (if c then V else Ok ()) (\<lambda>u. f (if c then A else B))"
  by (cases c; cases V) auto

lemma stage_unchecked:
  "bind_res (if c then Ok A else Ok B) f = f (if c then A else B)"
  by (cases c) auto

lemma stage_last:
  "(if c then bind_res V (\<lambda>u. bind_res W (\<lambda>u. Ok A)) else Ok B)
     = bind_res (if c then bind_res V (\<lambda>u. W) else Ok ()) (\<lambda>u. Ok (if c then A else B))"
  by (cases c; cases V; cases W) auto

lemma processQuery_Q_normal:
  "processQuery_Q a req q =
     bind_res (if query.Base q \<noteq> [] then ValidateCode (query.Base q) else Ok ()) (\<lambda>u.
     bind_res (if From q \<noteq> [] then ValidateCode (From q) else Ok ()) (\<lambda>u.
     bind_res (if To q \<noteq> [] then ValidateCode (To q) else Ok ()) (\<lambda>u.
     bind_res (if Date q \<noteq> [] then ValidateDate (Date q) else Ok ()) (\<lambda>u.
     bind_res (if TimeFrame q \<noteq> ([], [])
               then bind_res (ValidateDate (fst (TimeFrame q))) (\<lambda>u. ValidateTimeFrame (TimeFrame q))
               else Ok ()) (\<lambda>u.
     Ok (let Q0 = Add ''access_key'' a (URL_Query (URL req));
             Q1 = (if query.Base q \<noteq> [] then Add ''base'' (query.Base q) Q0 else Q0);
             Q2 = (if From q \<noteq> [] then Add ''from'' (From q) Q1 else Q1);
             Q3 = (if To q \<noteq> [] then Add ''to'' (To q) Q2 else Q2);
             Q4 = (if 1 < Amount q then Add ''amount'' (Itoa (Amount q)) Q3 else Q3);
             Q5 = (if Symbols q \<noteq> [] then Add ''symbols'' (Join (Symbols q) '','') Q4 else Q4);
             Q6 = (if Date q \<noteq> [] then Add ''date'' (Date q) Q5 else Q5);
             Q7 = (if TimeFrame q \<noteq> ([], [])
                   then Add ''start_date'' (fst (TimeFrame q)) Q6 else Q6)
         in if TimeFrame q \<noteq> ([], []) then Add ''end_date'' (snd (TimeFrame q)) Q7 else Q7))))))"
  unfolding processQuery_Q_def ValidateDates_one Let_def
  by (simp only: bind_res.simps stage_checked stage_unchecked stage_last TimeFrame_at_def
        length_0_conv fst_conv snd_conv One_nat_def refl if_True if_False) simp

lemma bind_res_const_Ok: "bind_res r (\<lambda>u. g) = Ok Q \<Longrightarrow> g = Ok Q"
  by (cases r) auto

lemma bind_res_unit: "bind_res r (\<lambda>u. Ok ()) = r"
  by (cases r) auto

lemma Values_at_if_Add:
  "Values_at (if c then Add k' x Q else Q) k = Values_at Q k @ (if c \<and> k' = k then [x] else [])"
  by (simp add: Values_at_Add)

lemma distinct_if_Add:
  "distinct (map fst Q) \<Longrightarrow> distinct (map fst (if c then Add k x Q else Q))"
  by (simp add: distinct_Add)

lemma distinct_URL_Query: "distinct (map fst (URL_Query u))"
  by (simp add: URL_Query_def distinct_parseQuery)

text \<open>The values that \<open>processQuery\<close> has built when every validation passed.\<close>

lemma processQuery_Q_Ok:
  assumes "processQuery_Q a req q = Ok Q"
  shows "Q = (let Q0 = Add ''access_key'' a (URL_Query (URL req));
             Q1 = (if query.Base q \<noteq> [] then Add ''base'' (query.Base q) Q0 else Q0);
             Q2 = (if From q \<noteq> [] then Add ''from'' (From q) Q1 else Q1);
             Q3 = (if To q \<noteq> [] then Add ''to'' (To q) Q2 else Q2);
             Q4 = (if 1 < Amount q then Add ''amount'' (Itoa (Amount q)) Q3 else Q3);
             Q5 = (if Symbols q \<noteq> [] then Add ''symbols'' (Join (Symbols q) '','') Q4 else Q4);
             Q6 = (if Date q \<noteq> [] then Add ''date'' (Date q) Q5 else Q5);
             Q7 = (if TimeFrame q \<noteq> ([], [])
                   then Add ''start_date'' (fst (TimeFrame q)) Q6 else Q6)
         in if TimeFrame q \<noteq> ([], []) then Add ''end_date'' (snd (TimeFrame q)) Q7 else Q7)"
proof -
  from assms [unfolded processQuery_Q_normal] have "Ok (let Q0 = Add ''access_key'' a (URL_Query (URL req));
             Q1 = (if query.Base q \<noteq> [] then Add ''base'' (query.Base q) Q0 else Q0);
             Q2 = (if From q \<noteq> [] then Add ''from'' (From q) Q1 else Q1);
             Q3 = (if To q \<noteq> [] then Add ''to'' (To q) Q2 else Q2);
             Q4 = (if 1 < Amount q then Add ''amount'' (Itoa (Amount q)) Q3 else Q3);
             Q5 = (if Symbols q \<noteq> [] then Add ''symbols'' (Join (Symbols q) '','') Q4 else Q4);
             Q6 = (if Date q \<noteq> [] then Add ''date'' (Date q) Q5 else Q5);
             Q7 = (if TimeFrame q \<noteq> ([], [])
                   then Add ''start_date'' (fst (TimeFrame q)) Q6 else Q6)
         in if TimeFrame q \<noteq> ([], []) then Add ''end_date'' (snd (TimeFrame q)) Q7 else Q7) = Ok Q"
    by (elim bind_res_const_Ok [elim_format])
  then show ?thesis by (simp only: res.inject)
qed

lemma processQuery_Q_distinct:
  assumes "processQuery_Q a req q = Ok Q"
  shows "distinct (map fst Q)"
  unfolding processQuery_Q_Ok [OF assms] Let_def
  by (intro distinct_if_Add distinct_Add distinct_URL_Query)

lemma processQuery_Q_amount:
  assumes "processQuery_Q a req q = Ok Q"
  shows "Values_at Q ''amount''
       = Values_at (URL_Query (URL req)) ''amount''
         @ (if 1 < Amount q then [Itoa (Amount q)] else [])"
  unfolding processQuery_Q_Ok [OF assms] Let_def
  by (simp add: Values_at_if_Add Values_at_Add del: Add.simps)

lemma processQuery_Q_symbols:
  assumes "processQuery_Q a req q = Ok Q"
  shows "Values_at Q ''symbols''
       = Values_at (URL_Query (URL req)) ''symbols''
         @ (if Symbols q \<noteq> [] then [Join (Symbols q) '',''] else [])"
  unfolding processQuery_Q_Ok [OF assms] Let_def
  by (simp add: Values_at_if_Add Values_at_Add del: Add.simps)

lemma processQuery_Ok:
  "(processQuery a req q = (req', Ok ()))
     = (\<exists>Q. processQuery_Q a req q = Ok Q \<and> req' = req\<lparr>URL := (URL req)\<lparr>RawQuery := Encode Q\<rparr>\<rparr>)"
  by (auto simp: processQuery_def split: res.splits)

lemma processQuery_status:
  "snd (processQuery a req q) =
     bind_res (if query.Base q \<noteq> [] then ValidateCode (query.Base q) else Ok ()) (\<lambda>u.
     bind_res (if From q \<noteq> [] then ValidateCode (From q) else Ok ()) (\<lambda>u.
     bind_res (if To q \<noteq> [] then ValidateCode (To q) else Ok ()) (\<lambda>u.
     bind_res (if Date q \<noteq> [] then ValidateDate (Date q) else Ok ()) (\<lambda>u.
     if TimeFrame q \<noteq> ([], [])
     then bind_res (ValidateDate (fst (TimeFrame q))) (\<lambda>u. ValidateTimeFrame (TimeFrame q))
     else Ok ()))))"
proof -
  have "snd (processQuery a req q) = bind_res (processQuery_Q a req q) (\<lambda>Q. Ok ())"
    by (cases "processQuery_Q a req q") (simp_all add: processQuery_def)
  then show ?thesis
    unfolding processQuery_Q_normal
    by (simp only: bind_res_assoc bind_res.simps bind_res_unit)
qed

subsection \<open>Decimal rendering and joining\<close>

declare digits.simps [simp del]

lemma digits_decimal:
  "0 \<le> n \<Longrightarrow> list_all isDigit (digits n) \<and> foldl (\<lambda>a c. a * 10 + digitVal c) 0 (digits n) = n"
proof (induction n rule: digits.induct)
  case (1 n)
  have table: "list_all isDigit ''0123456789''" "map digitVal ''0123456789'' = [0,1,2,3,4,5,6,7,8,9]"
    by code_simp+
  have digit: "isDigit (''0123456789'' ! nat d) \<and> digitVal (''0123456789'' ! nat d) = d"
    if "0 \<le> d" "d < 10" for d :: int
  proof -
    from that have lt: "nat d < length ''0123456789''" by simp
    then have "''0123456789'' ! nat d \<in> set ''0123456789''" by (rule nth_mem)
    with table(1) have "isDigit (''0123456789'' ! nat d)" unfolding list_all_iff by blast
    moreover have "digitVal (''0123456789'' ! nat d) = map digitVal ''0123456789'' ! nat d"
      using lt by (rule nth_map [symmetric])
    moreover from that have "[0,1,2,3,4,5,6,7,8,9] ! nat d = d"
      by (auto simp: nth_Cons split: nat.splits) 
    ultimately show ?thesis by (simp only: table(2)) 
  qed
  show ?case
  proof (cases "n < 10")
    case True
    with 1 digit [of n] show ?thesis by (subst (1 2) digits.simps) simp
  next
    case False
    with 1 have ih: "list_all isDigit (digits (n div 10))"
      "foldl (\<lambda>a c. a * 10 + digitVal c) 0 (digits (n div 10)) = n div 10"
      by simp_all
    have "0 \<le> n mod 10" "n mod 10 < 10" by simp_all
    from digit [OF this] ih False show ?thesis
      by (subst (1 2) digits.simps) simp
  qed
qed

lemma Itoa_decimal:
  "0 \<le> n \<Longrightarrow> list_all isDigit (Itoa n) \<and> foldl (\<lambda>a c. a * 10 + digitVal c) 0 (Itoa n) = n"
  using digits_decimal [of n] by (simp add: Itoa_def)

lemma Join_concat:
  "Join (x # xs) sep = x @ concat (map (\<lambda>y. sep @ y) xs)"
  by (induction xs arbitrary: x) simp_all

lemma URL_Query_processQuery:
  assumes "processQuery a req q = (req', Ok ())"
  obtains Q where "processQuery_Q a req q = Ok Q" "RawQuery (URL req') = Encode Q"
    "Values_at (URL_Query (URL req')) k = Values_at Q k"
proof -
  from assms obtain Q where Q: "processQuery_Q a req q = Ok Q"
    and r: "req' = req\<lparr>URL := (URL req)\<lparr>RawQuery := Encode Q\<rparr>\<rparr>"
    unfolding processQuery_Ok by blast
  from r have raw: "RawQuery (URL req') = Encode Q" by simp
  have "Values_at (URL_Query (URL req')) k = Values_at Q k"
    unfolding URL_Query_def raw
    by (rule Values_at_parseQuery_Encode [OF processQuery_Q_distinct [OF Q]])
  with Q raw show ?thesis by (rule that)
qed

text \<open>
  C6: when the request's URL has no \<open>amount\<close> parameter before the call and the
  encoding succeeds, the encoded URL, parsed as Go parses it, has no \<open>amount\<close> parameter
  if Amount is at most 1, and exactly one if Amount exceeds 1: the decimal digits of the
  amount. The amount is never validated: whether \<open>processQuery\<close> fails, and with which
  error, does not depend on it.
\<close>

theorem processQuery_amount:
  "(processQuery a req q = (req', Ok ()) \<and> Values_at (URL_Query (URL req)) ''amount'' = []
      \<longrightarrow> Values_at (URL_Query (URL req')) ''amount''
            = (if Amount q \<le> 1 then [] else [Itoa (Amount q)])) \<and>
   (1 < Amount q \<longrightarrow>
      list_all isDigit (Itoa (Amount q)) \<and>
      foldl (\<lambda>a c. a * 10 + digitVal c) 0 (Itoa (Amount q)) = Amount q) \<and>
   snd (processQuery a req (q\<lparr>Amount := n\<rparr>)) = snd (processQuery a req q)"
proof (intro conjI impI)
  assume h: "processQuery a req q = (req', Ok ()) \<and> Values_at (URL_Query (URL req)) ''amount'' = []"
  then obtain Q where Q: "processQuery_Q a req q = Ok Q"
    and v: "Values_at (URL_Query (URL req')) ''amount'' = Values_at Q ''amount''"
    using URL_Query_processQuery [of a req q req' "''amount''"] by blast
  from processQuery_Q_amount [OF Q] h v
  show "Values_at (URL_Query (URL req')) ''amount''
            = (if Amount q \<le> 1 then [] else [Itoa (Amount q)])"
    by (simp add: not_le)
next
  assume "1 < Amount q"
  then have "0 \<le> Amount q" by simp
  then show "list_all isDigit (Itoa (Amount q))"
    and "foldl (\<lambda>a c. a * 10 + digitVal c) 0 (Itoa (Amount q)) = Amount q"
    using Itoa_decimal by blast+
next
  show "snd (processQuery a req (q\<lparr>Amount := n\<rparr>)) = snd (processQuery a req q)"
    by (simp add: processQuery_status)
qed

text \<open>
  Two lists sorted by a key that agree, key by key, on the elements under that key are
  the same list.
\<close>

lemma sorted_by_key_unique:
  fixes f :: "'a \<Rightarrow> 'k::linorder"
  assumes "sorted (map f xs)" "sorted (map f ys)"
    and "\<And>k. filter (\<lambda>p. f p = k) xs = filter (\<lambda>p. f p = k) ys"
  shows "xs = ys"
  using assms
proof (induction xs arbitrary: ys)
  case Nil
  show ?case
  proof (cases ys)
    case Nil
    then show ?thesis by simp
  next
    case (Cons y ys')
    with Nil.prems(3) [of "f y"] show ?thesis by simp
  qed
next
  case (Cons x xs)
  have sets: "{p \<in> set (x # xs). f p = k} = {p \<in> set ys. f p = k}" for k
    using arg_cong [OF Cons.prems(3) [of k], of set] by (simp only: set_filter)
  from sets [of "f x"] have "x \<in> set ys" by auto
  then obtain y ys' where ys: "ys = y # ys'" by (cases ys) auto
  from sets [of "f y"] ys have "y \<in> set (x # xs)" by auto
  with Cons.prems(1) have "f x \<le> f y" by auto
  moreover from \<open>x \<in> set ys\<close> ys Cons.prems(2) have "f y \<le> f x" by auto
  ultimately have k: "f x = f y" by simp
  with Cons.prems(3) [of "f x"] ys have xy: "x = y" by simp
  have "filter (\<lambda>p. f p = k) xs = filter (\<lambda>p. f p = k) ys'" for k
    using Cons.prems(3) [of k] ys xy by (simp split: if_splits)
  moreover from Cons.prems(1,2) ys have "sorted (map f xs)" "sorted (map f ys')" by simp_all
  ultimately have "xs = ys'" by (intro Cons.IH)
  with ys xy show ?case by simp
qed

lemma QueryEscape_append: "QueryEscape (s @ t) = QueryEscape s @ QueryEscape t"
  by (simp add: QueryEscape_def)

lemma QueryEscape_comma: "QueryEscape '','' = ''%2C''"
  by code_simp

text \<open>In the URL each comma that joins the symbols is written \<open>%2C\<close>.\<close>

lemma QueryEscape_Join:
  "QueryEscape (Join symbols '','') = Join (map QueryEscape symbols) ''%2C''"
proof (induction symbols "'',''" rule: Join.induct)
  case 1
  show ?case by (simp add: QueryEscape_def)
next
  case (2 a)
  show ?case by simp
next
  case (3 a b elems)
  have "QueryEscape (Join (a # b # elems) '','')
      = QueryEscape a @ QueryEscape '','' @ QueryEscape (Join (b # elems) '','')"
    by (simp only: Join.simps QueryEscape_append)
  with 3 show ?case by (simp add: QueryEscape_comma)
qed


text \<open>When every code and date of the Query is valid, the validations pass.\<close>

lemma processQuery_Q_valid:
  assumes "query.Base q = [] \<or> ValidateCode (query.Base q) = Ok ()"
    and "From q = [] \<or> ValidateCode (From q) = Ok ()"
    and "To q = [] \<or> ValidateCode (To q) = Ok ()"
    and "Date q = [] \<or> ValidateDate (Date q) = Ok ()"
    and "TimeFrame q = ([], []) \<or>
         ValidateDate (fst (TimeFrame q)) = Ok () \<and> ValidateTimeFrame (TimeFrame q) = Ok ()"
  shows "\<exists>Q. processQuery_Q a req q = Ok Q"
proof -
  from assms(1) have 1: "(if query.Base q \<noteq> [] then ValidateCode (query.Base q) else Ok ()) = Ok ()"
    by auto
  from assms(2) have 2: "(if From q \<noteq> [] then ValidateCode (From q) else Ok ()) = Ok ()"
    by auto
  from assms(3) have 3: "(if To q \<noteq> [] then ValidateCode (To q) else Ok ()) = Ok ()"
    by auto
  from assms(4) have 4: "(if Date q \<noteq> [] then ValidateDate (Date q) else Ok ()) = Ok ()"
    by auto
  from assms(5) have 5: "(if TimeFrame q \<noteq> ([], [])
      then bind_res (ValidateDate (fst (TimeFrame q))) (\<lambda>u. ValidateTimeFrame (TimeFrame q))
      else Ok ()) = Ok ()"
    by auto
  show ?thesis
    unfolding processQuery_Q_normal by (simp only: 1 2 3 4 5 bind_res.simps) blast
qed

text \<open>Leaving elements out of a list keeps it sorted, and keeps its keys distinct.\<close>

lemma sorted_concat_optional:
  "sorted (map f (map snd cps))
     \<Longrightarrow> sorted (map f (concat (map (\<lambda>cp. case cp of (c, p) \<Rightarrow> if c then [p] else []) cps)))"
  by (induction cps) (auto simp: sorted_append)

lemma nine_keys:
  assumes "k = ka \<Longrightarrow> P" "k = kb \<Longrightarrow> P" "k = kc \<Longrightarrow> P" "k = kd \<Longrightarrow> P" "k = ke \<Longrightarrow> P"
    "k = kf \<Longrightarrow> P" "k = kg \<Longrightarrow> P" "k = kh \<Longrightarrow> P" "k = ki \<Longrightarrow> P"
    "\<lbrakk>k \<noteq> ka; k \<noteq> kb; k \<noteq> kc; k \<noteq> kd; k \<noteq> ke; k \<noteq> kf; k \<noteq> kg; k \<noteq> kh; k \<noteq> ki\<rbrakk> \<Longrightarrow> P"
  shows P
  using assms by blast

text \<open>
  On a URL without a query string, what \<open>Encode\<close> writes for the values that
  \<open>processQuery\<close> has built: the parameters in the order of their names.
\<close>

lemma processQuery_Q_pairs:
  assumes Q: "processQuery_Q a req q = Ok Q" and empty: "RawQuery (URL req) = []"
  shows "Encode_pairs Q =
           [(''access_key'', a)]
           @ (if 1 < Amount q then [(''amount'', Itoa (Amount q))] else [])
           @ (if query.Base q \<noteq> [] then [(''base'', query.Base q)] else [])
           @ (if Date q \<noteq> [] then [(''date'', Date q)] else [])
           @ (if TimeFrame q \<noteq> ([], []) then [(''end_date'', snd (TimeFrame q))] else [])
           @ (if From q \<noteq> [] then [(''from'', From q)] else [])
           @ (if TimeFrame q \<noteq> ([], []) then [(''start_date'', fst (TimeFrame q))] else [])
           @ (if Symbols q \<noteq> [] then [(''symbols'', Join (Symbols q) '','')] else [])
           @ (if To q \<noteq> [] then [(''to'', To q)] else [])"
  (is "_ = ?ps")
proof (rule sorted_by_key_unique [where f = fst])
  show "sorted (map fst (Encode_pairs Q))" by (rule sorted_Encode_pairs)
  have pairs: "?ps = concat (map (\<lambda>cp. case cp of (c, p) \<Rightarrow> if c then [p] else [])
      [(True, (''access_key'', a)), (1 < Amount q, (''amount'', Itoa (Amount q))),
       (query.Base q \<noteq> [], (''base'', query.Base q)), (Date q \<noteq> [], (''date'', Date q)),
       (TimeFrame q \<noteq> ([], []), (''end_date'', snd (TimeFrame q))),
       (From q \<noteq> [], (''from'', From q)),
       (TimeFrame q \<noteq> ([], []), (''start_date'', fst (TimeFrame q))),
       (Symbols q \<noteq> [], (''symbols'', Join (Symbols q) '','')),
       (To q \<noteq> [], (''to'', To q))])"
    by (simp only: list.map concat.simps case_prod_conv if_True append_Nil2)
  have "sorted [''access_key'', ''amount'', ''base'', ''date'', ''end_date'', ''from'',
      ''start_date'', ''symbols'', ''to'']"
    by code_simp
  then have "sorted (map fst (map snd
      [(True, (''access_key'', a)), (1 < Amount q, (''amount'', Itoa (Amount q))),
       (query.Base q \<noteq> [], (''base'', query.Base q)), (Date q \<noteq> [], (''date'', Date q)),
       (TimeFrame q \<noteq> ([], []), (''end_date'', snd (TimeFrame q))),
       (From q \<noteq> [], (''from'', From q)),
       (TimeFrame q \<noteq> ([], []), (''start_date'', fst (TimeFrame q))),
       (Symbols q \<noteq> [], (''symbols'', Join (Symbols q) '','')),
       (To q \<noteq> [], (''to'', To q))]))"
    by (simp only: list.map snd_conv fst_conv)
  then show "sorted (map fst ?ps)"
    unfolding pairs by (rule sorted_concat_optional)
  fix k
  from empty have none: "Values_at (URL_Query (URL req)) k' = []" for k'
    by (simp add: URL_Query_def parseQuery_Nil Values_at_def)
  have "filter (\<lambda>p. fst p = k) (Encode_pairs Q) = map (Pair k) (Values_at Q k)"
    by (rule filter_Encode_pairs [OF processQuery_Q_distinct [OF Q]])
  also have "Values_at Q k =
      (if ''access_key'' = k then [a] else [])
      @ (if query.Base q \<noteq> [] \<and> ''base'' = k then [query.Base q] else [])
      @ (if From q \<noteq> [] \<and> ''from'' = k then [From q] else [])
      @ (if To q \<noteq> [] \<and> ''to'' = k then [To q] else [])
      @ (if 1 < Amount q \<and> ''amount'' = k then [Itoa (Amount q)] else [])
      @ (if Symbols q \<noteq> [] \<and> ''symbols'' = k then [Join (Symbols q) '',''] else [])
      @ (if Date q \<noteq> [] \<and> ''date'' = k then [Date q] else [])
      @ (if TimeFrame q \<noteq> ([], []) \<and> ''start_date'' = k then [fst (TimeFrame q)] else [])
      @ (if TimeFrame q \<noteq> ([], []) \<and> ''end_date'' = k then [snd (TimeFrame q)] else [])"
    unfolding processQuery_Q_Ok [OF Q] Let_def
    by (simp only: Values_at_if_Add Values_at_Add none append_Nil append_assoc eq_commute [of k])
  also have "map (Pair k) \<dots> = filter (\<lambda>p. fst p = k) ?ps"
    by (rule nine_keys [where k = k and ka = "''access_key''" and kb = "''amount''"
          and kc = "''base''" and kd = "''date''" and ke = "''end_date''"
          and kf = "''from''" and kg = "''start_date''" and kh = "''symbols''"
          and ki = "''to''"])
       (simp_all del: Join.simps)
  finally show "filter (\<lambda>p. fst p = k) (Encode_pairs Q) = filter (\<lambda>p. fst p = k) ?ps" .
qed


lemma set_concat_optional:
  "set (concat (map (\<lambda>cp. case cp of (c, p) \<Rightarrow> if c then [p] else []) cps)) \<subseteq> snd ` set cps"
  by (induction cps) auto

lemma distinct_concat_optional:
  "distinct (map f (map snd cps))
     \<Longrightarrow> distinct (map f (concat (map (\<lambda>cp. case cp of (c, p) \<Rightarrow> if c then [p] else []) cps)))"
proof (induction cps)
  case Nil
  show ?case by simp
next
  case (Cons cp cps)
  obtain c p where cp: "cp = (c, p)" by (cases cp)
  from Cons.prems cp have "f p \<notin> f ` snd ` set cps" by (simp add: image_comp)
  with set_concat_optional [of cps]
  have "f p \<notin> f ` set (concat (map (\<lambda>cp. case cp of (c, p) \<Rightarrow> if c then [p] else []) cps))"
    by blast
  with Cons cp show ?case by simp
qed

lemma QueryEscape_symbols: "QueryEscape ''symbols'' = ''symbols''"
  by code_simp

text \<open>
  C5: the request URL that \<open>processQuery\<close> writes is given in closed form from the
  access key, the endpoint URL and the Query alone, so two encodings of the same Query
  against the same endpoint URL with the same access key are the same bytes. For a request
  whose URL has no query string yet, as that of every request that \<open>get\<close> builds, and a
  Query whose codes and dates pass the validations, \<open>processQuery\<close> succeeds, and the raw
  query is the escaped \<open>name=value\<close> pairs of these parameters joined by \<open>&\<close>:
  \<open>access_key\<close>, then those of \<open>amount\<close>, \<open>base\<close>, \<open>date\<close>, \<open>end_date\<close>, \<open>from\<close>,
  \<open>start_date\<close>, \<open>symbols\<close> and \<open>to\<close> that the Query sets. Their names are in ascending
  bytewise order, no name occurs twice, and the raw query reads as no other list of pairs.
  The symbols are one parameter. Its value is the symbols in their order, each but the
  first after a comma; in the URL it reads \<open>symbols=\<close> and then the escaped symbols in
  their order, separated by \<open>%2C\<close>, the escaped comma.
\<close>

theorem processQuery_canonical_url:
  assumes "RawQuery (URL req) = []"
    and "query.Base q = [] \<or> ValidateCode (query.Base q) = Ok ()"
    and "From q = [] \<or> ValidateCode (From q) = Ok ()"
    and "To q = [] \<or> ValidateCode (To q) = Ok ()"
    and "Date q = [] \<or> ValidateDate (Date q) = Ok ()"
    and "TimeFrame q = ([], []) \<or>
         ValidateDate (fst (TimeFrame q)) = Ok () \<and> ValidateTimeFrame (TimeFrame q) = Ok ()"
  shows "let ps = [(''access_key'', a)]
           @ (if 1 < Amount q then [(''amount'', Itoa (Amount q))] else [])
           @ (if query.Base q \<noteq> [] then [(''base'', query.Base q)] else [])
           @ (if Date q \<noteq> [] then [(''date'', Date q)] else [])
           @ (if TimeFrame q \<noteq> ([], []) then [(''end_date'', snd (TimeFrame q))] else [])
           @ (if From q \<noteq> [] then [(''from'', From q)] else [])
           @ (if TimeFrame q \<noteq> ([], []) then [(''start_date'', fst (TimeFrame q))] else [])
           @ (if Symbols q \<noteq> [] then [(''symbols'', Join (Symbols q) '','')] else [])
           @ (if To q \<noteq> [] then [(''to'', To q)] else [])
         in processQuery a req q
              = (req\<lparr>URL := (URL req)\<lparr>RawQuery := Join (map Encode_pair ps) ''&''\<rparr>\<rparr>, Ok ()) \<and>
            URL_String (URL (fst (processQuery a req q)))
              = Prefix (URL req) @ ''?'' @ Join (map Encode_pair ps) ''&'' @ Suffix (URL req) \<and>
            sorted (map fst ps) \<and> distinct (map fst ps) \<and>
            (\<forall>ps'. RawQuery (URL (fst (processQuery a req q))) = Join (map Encode_pair ps') ''&''
               \<longrightarrow> ps' = ps) \<and>
            Encode_pair (''symbols'', Join (Symbols q) '','')
              = ''symbols='' @ Join (map QueryEscape (Symbols q)) ''%2C'' \<and>
            Values_at (URL_Query (URL (fst (processQuery a req q)))) ''symbols''
              = (case Symbols q of [] \<Rightarrow> []
                 | s # symbols \<Rightarrow> [s @ concat (map (\<lambda>y. CHR '','' # y) symbols)])"
proof -
  let ?tail = "(if 1 < Amount q then [(''amount'', Itoa (Amount q))] else [])
           @ (if query.Base q \<noteq> [] then [(''base'', query.Base q)] else [])
           @ (if Date q \<noteq> [] then [(''date'', Date q)] else [])
           @ (if TimeFrame q \<noteq> ([], []) then [(''end_date'', snd (TimeFrame q))] else [])
           @ (if From q \<noteq> [] then [(''from'', From q)] else [])
           @ (if TimeFrame q \<noteq> ([], []) then [(''start_date'', fst (TimeFrame q))] else [])
           @ (if Symbols q \<noteq> [] then [(''symbols'', Join (Symbols q) '','')] else [])
           @ (if To q \<noteq> [] then [(''to'', To q)] else [])"
  let ?ps = "[(''access_key'', a)] @ ?tail"
  let ?raw = "Join (map Encode_pair ?ps) ''&''"
  from assms(2-6) obtain Q where Q: "processQuery_Q a req q = Ok Q"
    using processQuery_Q_valid by blast
  have pairs: "Encode_pairs Q = ?ps"
    by (rule processQuery_Q_pairs [OF Q assms(1)])
  have raw: "Encode Q = ?raw"
    by (simp only: Encode_def pairs)
  have run: "processQuery a req q = (req\<lparr>URL := (URL req)\<lparr>RawQuery := ?raw\<rparr>\<rparr>, Ok ())"
    using Q by (simp only: processQuery_def res.case raw)
  have "?ps = (''access_key'', a) # ?tail" by (simp only: append_Cons append_Nil)
  then have "?raw \<noteq> []" by (simp only: Join_Encode_pair_not_Nil not_False_eq_True)
  then have str: "URL_String (URL (fst (processQuery a req q)))
      = Prefix (URL req) @ ''?'' @ ?raw @ Suffix (URL req)"
    unfolding run by (simp add: URL_String_def del: Join.simps)
  have srt: "sorted (map fst ?ps)"
    unfolding pairs [symmetric] by (rule sorted_Encode_pairs)
  have cps: "?ps = concat (map (\<lambda>cp. case cp of (c, p) \<Rightarrow> if c then [p] else [])
      [(True, (''access_key'', a)), (1 < Amount q, (''amount'', Itoa (Amount q))),
       (query.Base q \<noteq> [], (''base'', query.Base q)), (Date q \<noteq> [], (''date'', Date q)),
       (TimeFrame q \<noteq> ([], []), (''end_date'', snd (TimeFrame q))),
       (From q \<noteq> [], (''from'', From q)),
       (TimeFrame q \<noteq> ([], []), (''start_date'', fst (TimeFrame q))),
       (Symbols q \<noteq> [], (''symbols'', Join (Symbols q) '','')),
       (To q \<noteq> [], (''to'', To q))])"
    by (simp only: list.map concat.simps case_prod_conv if_True append_Nil2)
  have "distinct [''access_key'', ''amount'', ''base'', ''date'', ''end_date'', ''from'',
      ''start_date'', ''symbols'', ''to'']"
    by code_simp
  then have "distinct (map fst (map snd
      [(True, (''access_key'', a)), (1 < Amount q, (''amount'', Itoa (Amount q))),
       (query.Base q \<noteq> [], (''base'', query.Base q)), (Date q \<noteq> [], (''date'', Date q)),
       (TimeFrame q \<noteq> ([], []), (''end_date'', snd (TimeFrame q))),
       (From q \<noteq> [], (''from'', From q)),
       (TimeFrame q \<noteq> ([], []), (''start_date'', fst (TimeFrame q))),
       (Symbols q \<noteq> [], (''symbols'', Join (Symbols q) '','')),
       (To q \<noteq> [], (''to'', To q))]))"
    by (simp only: list.map snd_conv fst_conv)
  then have dst: "distinct (map fst ?ps)"
    unfolding cps by (rule distinct_concat_optional)
  have unique: "ps' = ?ps"
    if "RawQuery (URL (fst (processQuery a req q))) = Join (map Encode_pair ps') ''&''" for ps'
  proof -
    from that have "Join (map Encode_pair ps') ''&'' = ?raw"
      unfolding run by (simp del: Join.simps)
    then show ?thesis by (rule Join_Encode_pair_inject)
  qed
  have esc: "Encode_pair (''symbols'', Join (Symbols q) '','')
      = ''symbols='' @ Join (map QueryEscape (Symbols q)) ''%2C''"
    by (simp only: Encode_pair_def fst_conv snd_conv QueryEscape_symbols QueryEscape_Join)
       simp
  have none: "Values_at (URL_Query (URL req)) ''symbols'' = []"
    using assms(1) by (simp add: URL_Query_def parseQuery_Nil Values_at_def)
  have "Values_at (URL_Query (URL (fst (processQuery a req q)))) ''symbols''
      = Values_at Q ''symbols''"
    unfolding run raw [symmetric]
    by (simp add: URL_Query_def Values_at_parseQuery_Encode [OF processQuery_Q_distinct [OF Q]])
  with processQuery_Q_symbols [OF Q] none
  have dec: "Values_at (URL_Query (URL (fst (processQuery a req q)))) ''symbols''
              = (case Symbols q of [] \<Rightarrow> []
                 | s # symbols \<Rightarrow> [s @ concat (map (\<lambda>y. CHR '','' # y) symbols)])"
    by (cases "Symbols q") (simp_all add: Join_concat del: Join.simps)
  from run str srt dst unique esc dec show ?thesis
    unfolding Let_def by blast
qed

subsection \<open>The encoder on a conversion request\<close>

lemma convert_run:
  "processQuery ''KEY''
     \<lparr>URL = \<lparr>Prefix = ''https://api.exchangerate.host/convert'', ForceQuery = False,
              RawQuery = [], Suffix = []\<rparr>\<rparr>
     \<lparr>From = ''EUR'', To = ''USD'', query.Base = [], Amount = 25, Symbols = [''USD'', ''GBP''],
      Date = [], TimeFrame = ([], [])\<rparr>
   = (\<lparr>URL = \<lparr>Prefix = ''https://api.exchangerate.host/convert'', ForceQuery = False,
               RawQuery = ''access_key=KEY&amount=25&from=EUR&symbols=USD%2CGBP&to=USD'',
               Suffix = []\<rparr>\<rparr>, Ok ())"
  by code_simp

lemma convert_run_1:
  "processQuery ''KEY''
     \<lparr>URL = \<lparr>Prefix = ''https://api.exchangerate.host/convert'', ForceQuery = False,
              RawQuery = [], Suffix = []\<rparr>\<rparr>
     \<lparr>From = ''EUR'', To = ''USD'', query.Base = [], Amount = 1, Symbols = [],
      Date = [], TimeFrame = ([], [])\<rparr>
   = (\<lparr>URL = \<lparr>Prefix = ''https://api.exchangerate.host/convert'', ForceQuery = False,
               RawQuery = ''access_key=KEY&from=EUR&to=USD'', Suffix = []\<rparr>\<rparr>, Ok ())"
  by code_simp

lemma no_query: "URL_Query \<lparr>Prefix = p, ForceQuery = False, RawQuery = [], Suffix = []\<rparr> = []"
  by (simp add: URL_Query_def parseQuery_Nil)

lemma Itoa_25: "Itoa 25 = ''25''"
  by code_simp

theorem processQuery_amount_witness:
  "Values_at (URL_Query \<lparr>Prefix = ''https://api.exchangerate.host/convert'', ForceQuery = False,
      RawQuery = ''access_key=KEY&amount=25&from=EUR&symbols=USD%2CGBP&to=USD'',
      Suffix = []\<rparr>) ''amount'' = [''25''] \<and>
   Values_at (URL_Query \<lparr>Prefix = ''https://api.exchangerate.host/convert'', ForceQuery = False,
      RawQuery = ''access_key=KEY&from=EUR&to=USD'', Suffix = []\<rparr>) ''amount'' = [] \<and>
   list_all isDigit (Itoa 25) \<and> foldl (\<lambda>a c. a * 10 + digitVal c) 0 (Itoa 25) = 25 \<and>
   snd (processQuery ''KEY''
     \<lparr>URL = \<lparr>Prefix = ''https://api.exchangerate.host/convert'', ForceQuery = False,
              RawQuery = [], Suffix = []\<rparr>\<rparr>
     \<lparr>From = ''EUR'', To = ''USD'', query.Base = [], Amount = 1000000, Symbols = [''USD'', ''GBP''],
      Date = [], TimeFrame = ([], [])\<rparr>) = Ok ()"
  using
    processQuery_amount [of "''KEY''"
      "\<lparr>URL = \<lparr>Prefix = ''https://api.exchangerate.host/convert'', ForceQuery = False,
              RawQuery = [], Suffix = []\<rparr>\<rparr>"
      "\<lparr>From = ''EUR'', To = ''USD'', query.Base = [], Amount = 25, Symbols = [''USD'', ''GBP''],
        Date = [], TimeFrame = ([], [])\<rparr>"
      "\<lparr>URL = \<lparr>Prefix = ''https://api.exchangerate.host/convert'', ForceQuery = False,
               RawQuery = ''access_key=KEY&amount=25&from=EUR&symbols=USD%2CGBP&to=USD'',
               Suffix = []\<rparr>\<rparr>" 1000000]
    processQuery_amount [of "''KEY''"
      "\<lparr>URL = \<lparr>Prefix = ''https://api.exchangerate.host/convert'', ForceQuery = False,
              RawQuery = [], Suffix = []\<rparr>\<rparr>"
      "\<lparr>From = ''EUR'', To = ''USD'', query.Base = [], Amount = 1, Symbols = [],
        Date = [], TimeFrame = ([], [])\<rparr>"
      "\<lparr>URL = \<lparr>Prefix = ''https://api.exchangerate.host/convert'', ForceQuery = False,
               RawQuery = ''access_key=KEY&from=EUR&to=USD'', Suffix = []\<rparr>\<rparr>" 1]
  by (simp add: convert_run convert_run_1 no_query Values_at_def Itoa_25)

lemma valid_inputs:
  "ValidateCode ''EUR'' = Ok ()" "ValidateCode ''USD'' = Ok ()"
  "ValidateDate ''2024-01-01'' = Ok ()"
  "ValidateTimeFrame (''2024-01-01'', ''2024-03-01'') = Ok ()"
  by code_simp+

lemma Encode_pair_examples:
  "Encode_pair (''access_key'', ''KEY'') = ''access_key=KEY''"
  "Encode_pair (''amount'', ''25'') = ''amount=25''"
  "Encode_pair (''base'', ''EUR'') = ''base=EUR''"
  "Encode_pair (''end_date'', ''2024-03-01'') = ''end_date=2024-03-01''"
  "Encode_pair (''from'', ''EUR'') = ''from=EUR''"
  "Encode_pair (''start_date'', ''2024-01-01'') = ''start_date=2024-01-01''"
  "Encode_pair (''symbols'', ''USD,GBP'') = ''symbols=USD%2CGBP''"
  "Encode_pair (''symbols'', ''USD,EUR'') = ''symbols=USD%2CEUR''"
  "Encode_pair (''to'', ''USD'') = ''to=USD''"
  by code_simp+

lemma QueryEscape_examples:
  "QueryEscape ''USD'' = ''USD''" "QueryEscape ''GBP'' = ''GBP''" "QueryEscape ''EUR'' = ''EUR''"
  by code_simp+

lemma timeseries_run:
  "processQuery ''KEY''
     \<lparr>URL = \<lparr>Prefix = ''https://api.exchangerate.host/timeseries'', ForceQuery = False,
              RawQuery = [], Suffix = []\<rparr>\<rparr>
     \<lparr>From = [], To = [], query.Base = ''EUR'', Amount = 0, Symbols = [''USD'', ''EUR''],
      Date = [], TimeFrame = (''2024-01-01'', ''2024-03-01'')\<rparr>
   = (\<lparr>URL = \<lparr>Prefix = ''https://api.exchangerate.host/timeseries'', ForceQuery = False,
               RawQuery = ''access_key=KEY&base=EUR&end_date=2024-03-01&start_date=2024-01-01&symbols=USD%2CEUR'',
               Suffix = []\<rparr>\<rparr>, Ok ())"
  by code_simp

theorem processQuery_canonical_url_witness:
  "processQuery ''KEY''
     \<lparr>URL = \<lparr>Prefix = ''https://api.exchangerate.host/convert'', ForceQuery = False,
              RawQuery = [], Suffix = []\<rparr>\<rparr>
     \<lparr>From = ''EUR'', To = ''USD'', query.Base = [], Amount = 25, Symbols = [''USD'', ''GBP''],
      Date = [], TimeFrame = ([], [])\<rparr>
   = (\<lparr>URL = \<lparr>Prefix = ''https://api.exchangerate.host/convert'', ForceQuery = False,
               RawQuery = ''access_key=KEY&amount=25&from=EUR&symbols=USD%2CGBP&to=USD'',
               Suffix = []\<rparr>\<rparr>, Ok ()) \<and>
   URL_String (URL (fst (processQuery ''KEY''
     \<lparr>URL = \<lparr>Prefix = ''https://api.exchangerate.host/convert'', ForceQuery = False,
              RawQuery = [], Suffix = []\<rparr>\<rparr>
     \<lparr>From = ''EUR'', To = ''USD'', query.Base = [], Amount = 25, Symbols = [''USD'', ''GBP''],
      Date = [], TimeFrame = ([], [])\<rparr>)))
   = ''https://api.exchangerate.host/convert?access_key=KEY&amount=25&from=EUR&symbols=USD%2CGBP&to=USD'' \<and>
   Values_at (URL_Query (URL (fst (processQuery ''KEY''
     \<lparr>URL = \<lparr>Prefix = ''https://api.exchangerate.host/convert'', ForceQuery = False,
              RawQuery = [], Suffix = []\<rparr>\<rparr>
     \<lparr>From = ''EUR'', To = ''USD'', query.Base = [], Amount = 25, Symbols = [''USD'', ''GBP''],
      Date = [], TimeFrame = ([], [])\<rparr>)))) ''symbols'' = [''USD,GBP''] \<and>
   processQuery ''KEY''
     \<lparr>URL = \<lparr>Prefix = ''https://api.exchangerate.host/timeseries'', ForceQuery = False,
              RawQuery = [], Suffix = []\<rparr>\<rparr>
     \<lparr>From = [], To = [], query.Base = ''EUR'', Amount = 0, Symbols = [''USD'', ''EUR''],
      Date = [], TimeFrame = (''2024-01-01'', ''2024-03-01'')\<rparr>
   = (\<lparr>URL = \<lparr>Prefix = ''https://api.exchangerate.host/timeseries'', ForceQuery = False,
               RawQuery = ''access_key=KEY&base=EUR&end_date=2024-03-01&start_date=2024-01-01&symbols=USD%2CEUR'',
               Suffix = []\<rparr>\<rparr>, Ok ()) \<and>
   URL_String (URL (fst (processQuery ''KEY''
     \<lparr>URL = \<lparr>Prefix = ''https://api.exchangerate.host/timeseries'', ForceQuery = False,
              RawQuery = [], Suffix = []\<rparr>\<rparr>
     \<lparr>From = [], To = [], query.Base = ''EUR'', Amount = 0, Symbols = [''USD'', ''EUR''],
      Date = [], TimeFrame = (''2024-01-01'', ''2024-03-01'')\<rparr>)))
   = ''https://api.exchangerate.host/timeseries?access_key=KEY&base=EUR&end_date=2024-03-01&start_date=2024-01-01&symbols=USD%2CEUR'' \<and>
   Values_at (URL_Query (URL (fst (processQuery ''KEY''
     \<lparr>URL = \<lparr>Prefix = ''https://api.exchangerate.host/timeseries'', ForceQuery = False,
              RawQuery = [], Suffix = []\<rparr>\<rparr>
     \<lparr>From = [], To = [], query.Base = ''EUR'', Amount = 0, Symbols = [''USD'', ''EUR''],
      Date = [], TimeFrame = (''2024-01-01'', ''2024-03-01'')\<rparr>)))) ''symbols'' = [''USD,EUR'']"
  using
    processQuery_canonical_url [where a = "''KEY''"
      and req = "\<lparr>URL = \<lparr>Prefix = ''https://api.exchangerate.host/convert'', ForceQuery = False,
              RawQuery = [], Suffix = []\<rparr>\<rparr>"
      and q = "\<lparr>From = ''EUR'', To = ''USD'', query.Base = [], Amount = 25,
        Symbols = [''USD'', ''GBP''], Date = [], TimeFrame = ([], [])\<rparr>"]
    processQuery_canonical_url [where a = "''KEY''"
      and req = "\<lparr>URL = \<lparr>Prefix = ''https://api.exchangerate.host/timeseries'', ForceQuery = False,
              RawQuery = [], Suffix = []\<rparr>\<rparr>"
      and q = "\<lparr>From = [], To = [], query.Base = ''EUR'', Amount = 0,
        Symbols = [''USD'', ''EUR''], Date = [], TimeFrame = (''2024-01-01'', ''2024-03-01'')\<rparr>"]
  by (simp add: convert_run timeseries_run valid_inputs Encode_pair_examples QueryEscape_examples
        Itoa_25 Let_def)

subsection \<open>Validation inside the encoder\<close>

text \<open>
  C10: when \<open>processQuery\<close> returns an error, the request is the one it was given: its raw
  query string is as before the call, without \<open>access_key\<close> or any other parameter.
\<close>

theorem processQuery_error_leaves_request:
  "processQuery accessKey req q = (req', Err e) \<Longrightarrow>
     req' = req \<and> RawQuery (URL req') = RawQuery (URL req)"
  by (auto simp: processQuery_def split: res.splits)

theorem processQuery_error_leaves_request_witness:
  "processQuery ''KEY''
     \<lparr>URL = \<lparr>Prefix = ''https://api.exchangerate.host/latest'', ForceQuery = False,
              RawQuery = [], Suffix = []\<rparr>\<rparr>
     \<lparr>From = [], To = [], query.Base = ''US'', Amount = 0, Symbols = [], Date = [],
      TimeFrame = ([], [])\<rparr>
   = (\<lparr>URL = \<lparr>Prefix = ''https://api.exchangerate.host/latest'', ForceQuery = False,
               RawQuery = [], Suffix = []\<rparr>\<rparr>, Err ErrInvalidCode) \<and>
   RawQuery (URL \<lparr>URL = \<lparr>Prefix = ''https://api.exchangerate.host/latest'',
      ForceQuery = False, RawQuery = [], Suffix = []\<rparr>\<rparr>) = []"
proof -
  have run: "processQuery ''KEY''
     \<lparr>URL = \<lparr>Prefix = ''https://api.exchangerate.host/latest'', ForceQuery = False,
              RawQuery = [], Suffix = []\<rparr>\<rparr>
     \<lparr>From = [], To = [], query.Base = ''US'', Amount = 0, Symbols = [], Date = [],
      TimeFrame = ([], [])\<rparr>
   = (\<lparr>URL = \<lparr>Prefix = ''https://api.exchangerate.host/latest'', ForceQuery = False,
               RawQuery = [], Suffix = []\<rparr>\<rparr>, Err ErrInvalidCode)"
    by code_simp
  from processQuery_error_leaves_request [OF run] run show ?thesis by simp
qed

text \<open>
  C3, at a Query whose only field is the symbols list \<open>["US"]\<close>: \<open>ValidateSymbols\<close> refuses
  the list, but \<open>processQuery\<close> never calls it: the list is joined and sent as it is.
\<close>

theorem processQuery_symbols_not_validated:
  "ValidateSymbols [''US''] = Err ErrInvalidCode \<and>
   processQuery ''KEY''
     \<lparr>URL = \<lparr>Prefix = ''https://api.exchangerate.host/latest'', ForceQuery = False,
              RawQuery = [], Suffix = []\<rparr>\<rparr>
     \<lparr>From = [], To = [], query.Base = [], Amount = 0, Symbols = [''US''], Date = [],
      TimeFrame = ([], [])\<rparr>
   = (\<lparr>URL = \<lparr>Prefix = ''https://api.exchangerate.host/latest'', ForceQuery = False,
               RawQuery = ''access_key=KEY&symbols=US'', Suffix = []\<rparr>\<rparr>, Ok ())"
  by code_simp

section \<open>Properties of the fetch pipeline\<close>

lemma bind_res_no_Panic:
  "(\<And>e. r \<noteq> Panic e) \<Longrightarrow> (\<And>x e. f x \<noteq> Panic e) \<Longrightarrow> bind_res r f \<noteq> Panic e"
  by (cases r) auto

lemma ValidateCode_no_Panic: "ValidateCode c \<noteq> Panic e"
  by (simp add: ValidateCode_def)

lemma ValidateDate_no_Panic: "ValidateDate d \<noteq> Panic e"
  using parseDate_no_Panic [of d]
  by (auto simp: ValidateDate_def parseDate_oldest split: res.splits)

lemma ValidateTimeFrame_no_Panic: "ValidateTimeFrame tf \<noteq> Panic e"
  using parseDate_no_Panic
  by (auto simp: ValidateTimeFrame_def split: res.splits)

lemma if_no_Panic: "(\<And>e. r \<noteq> Panic e) \<Longrightarrow> (if c then r else Ok ()) \<noteq> Panic e"
  by simp

lemma processQuery_no_Panic: "snd (processQuery a req q) \<noteq> Panic e"
  unfolding processQuery_status
  by (intro bind_res_no_Panic if_no_Panic ValidateCode_no_Panic ValidateDate_no_Panic
        ValidateTimeFrame_no_Panic)

lemma Quote_example:
  \<open>Quote tables ''{"success":false}''
     = [CHR 0x22, CHR ''{'', CHR 0x5C, CHR 0x22] @ ''success'' @ [CHR 0x5C, CHR 0x22] @ '':false}''
       @ [CHR 0x22]\<close>
  by code_simp

text \<open>
  C7, amended: when the fetch reaches a response whose decoded \<open>success\<close> field is the
  boolean false, it fails with an error that wraps InvalidAPIResponse; the message is the
  body quoted as \<open>%q\<close> quotes it, followed by \<open>: Unknown API error\<close>. The request has
  been sent, nothing is returned but the error, and the cache is as before.
\<close>

theorem get_reports_api_failure:
  assumes "NewRequest env url = Ok req0"
    and "req = fst (processQuery (AccessKey env) req0 q)"
    and "(if CacheEnabled exchange then Cache w (URL_String (URL req)) else None) = None"
    and "Do env req = Ok resp" and "Body resp = Ok b"
    and "Unmarshal env b = Ok result"
    and "map_of result ''success'' = Some (JBool False)"
  shows "get env exchange url q w = (Err (WrapAPIResponse b), w\<lparr>Sent := Sent w @ [req]\<rparr>) \<and>
         errors_Is (WrapAPIResponse b) ErrInvalidAPIResponse \<and>
         Error_text lib (WrapAPIResponse b) = Quote (PrintTables lib) b @ '': Unknown API error'' \<and>
         Cache (snd (get env exchange url q w)) = Cache w"
proof -
  from assms(3) have miss: "CacheEnabled exchange \<Longrightarrow> Cache w (URL_String (URL req)) = None"
    by simp
  have run: "get env exchange url q w = (Err (WrapAPIResponse b), w\<lparr>Sent := Sent w @ [req]\<rparr>)"
  proof (cases "snd (processQuery (AccessKey env) req0 q)")
    case (Ok u)
    with assms miss show ?thesis by (simp add: get_def Let_def)
  next
    case (Err e)
    with assms miss show ?thesis by (simp add: get_def Let_def)
  next
    case (Panic e)
    with processQuery_no_Panic show ?thesis by blast
  qed
  then show ?thesis by simp
qed

lemma latest_request:
  "NewRequest (stubEnv key body result) latestURL
     = Ok \<lparr>URL = \<lparr>Prefix = ''https://api.exchangerate.host/latest'', ForceQuery = False,
                  RawQuery = [], Suffix = []\<rparr>\<rparr>"
  by (simp add: stubEnv_def latestURL_def baseURL_def)

theorem get_reports_api_failure_witness:
  \<open>get (stubEnv ''KEY'' ''{"success":false}'' [(''success'', JBool False)]) (New ''USD'') latestURL
      \<lparr>From = [], To = [], query.Base = ''USD'', Amount = 0, Symbols = [], Date = [],
       TimeFrame = ([], [])\<rparr>
      \<lparr>Cache = Map.empty, Sent = []\<rparr>
    = (Err (WrapAPIResponse ''{"success":false}''),
       \<lparr>Cache = Map.empty,
        Sent = [\<lparr>URL = \<lparr>Prefix = ''https://api.exchangerate.host/latest'', ForceQuery = False,
                        RawQuery = ''access_key=KEY&base=USD'', Suffix = []\<rparr>\<rparr>]\<rparr>) \<and>
   errors_Is (WrapAPIResponse ''{"success":false}'') ErrInvalidAPIResponse \<and>
   Error_text \<lparr>PrintTables = (\<lambda>r. False), ParseErrorText = (\<lambda>v. [])\<rparr>
       (WrapAPIResponse ''{"success":false}'')
     = [CHR 0x22, CHR ''{'', CHR 0x5C, CHR 0x22] @ ''success'' @ [CHR 0x5C, CHR 0x22]
       @ '':false}'' @ [CHR 0x22] @ '': Unknown API error''\<close>
proof -
  let ?env = \<open>stubEnv ''KEY'' ''{"success":false}'' [(''success'', JBool False)]\<close>
  let ?fresh = "\<lparr>URL = \<lparr>Prefix = ''https://api.exchangerate.host/latest'', ForceQuery = False,
                  RawQuery = [], Suffix = []\<rparr>\<rparr>"
  let ?sent = "\<lparr>URL = \<lparr>Prefix = ''https://api.exchangerate.host/latest'', ForceQuery = False,
                  RawQuery = ''access_key=KEY&base=USD'', Suffix = []\<rparr>\<rparr>"
  let ?q = "\<lparr>From = [], To = [], query.Base = ''USD'', Amount = 0, Symbols = [], Date = [],
       TimeFrame = ([], [])\<rparr>"
  let ?w = "\<lparr>Cache = Map.empty, Sent = []\<rparr>"
  have a1: "NewRequest ?env latestURL = Ok ?fresh" by (rule latest_request)
  have a2: "?sent = fst (processQuery (AccessKey ?env) ?fresh ?q)" by code_simp
  have a3: "(if CacheEnabled (New ''USD'') then Cache ?w (URL_String (URL ?sent)) else None) = None"
    by simp
  have a4: \<open>Do ?env ?sent = Ok \<lparr>Body = Ok ''{"success":false}''\<rparr>\<close> by (simp add: stubEnv_def)
  have a5: \<open>Body \<lparr>Body = Ok ''{"success":false}''\<rparr> = Ok ''{"success":false}''\<close> by simp
  have a6: \<open>Unmarshal ?env ''{"success":false}'' = Ok [(''success'', JBool False)]\<close>
    by (simp add: stubEnv_def)
  have a7: "map_of [(''success'', JBool False)] ''success'' = Some (JBool False)" by simp
  from get_reports_api_failure [OF a1 a2 a3 a4 a5 a6 a7,
      of "\<lparr>PrintTables = (\<lambda>r. False), ParseErrorText = (\<lambda>v. [])\<rparr>"]
  show ?thesis by (simp add: Quote_example)
qed

text \<open>
  C7 as stated fails on the body \<open>{"success":false}\<close>: the fetch fails with the error
  that wraps InvalidAPIResponse, but its message holds the body with every double quote
  after a backslash, so the literal body is no part of it, whatever the Unicode tables.
\<close>

theorem get_error_text_not_literal:
  \<open>fst (get (stubEnv ''KEY'' ''{"success":false}'' [(''success'', JBool False)]) (New ''USD'')
          latestURL
          \<lparr>From = [], To = [], query.Base = ''USD'', Amount = 0, Symbols = [], Date = [],
           TimeFrame = ([], [])\<rparr>
          \<lparr>Cache = Map.empty, Sent = []\<rparr>)
     = Err (WrapAPIResponse ''{"success":false}'') \<and>
   map_of [(''success'', JBool False)] ''success'' = Some (JBool False) \<and>
   (\<forall>lib. \<not> sublist ''{"success":false}''
            (Error_text lib (WrapAPIResponse ''{"success":false}'')))\<close>
proof (intro conjI allI)
  show \<open>fst (get (stubEnv ''KEY'' ''{"success":false}'' [(''success'', JBool False)]) (New ''USD'')
          latestURL
          \<lparr>From = [], To = [], query.Base = ''USD'', Amount = 0, Symbols = [], Date = [],
           TimeFrame = ([], [])\<rparr>
          \<lparr>Cache = Map.empty, Sent = []\<rparr>)
     = Err (WrapAPIResponse ''{"success":false}'')\<close>
    by code_simp
next
  show "map_of [(''success'', JBool False)] ''success'' = Some (JBool False)" by simp
next
  fix lib
  show \<open>\<not> sublist ''{"success":false}''
            (Error_text lib (WrapAPIResponse ''{"success":false}''))\<close>
    unfolding Error_text.simps Quote_example by code_simp
qed

text \<open>
  C1, at the call that \<open>LatestRatesAll\<close> makes on \<open>New("US")\<close>: \<open>processQuery\<close> returns
  InvalidCode and leaves the URL without a query, but \<open>get\<close> drops that error, sends the
  request and returns what the server answered.
\<close>

theorem get_drops_validation_error:
  \<open>snd (processQuery ''KEY''
          \<lparr>URL = \<lparr>Prefix = ''https://api.exchangerate.host/latest'', ForceQuery = False,
                   RawQuery = [], Suffix = []\<rparr>\<rparr>
          \<lparr>From = [], To = [], query.Base = ''US'', Amount = 0, Symbols = [], Date = [],
           TimeFrame = ([], [])\<rparr>) = Err ErrInvalidCode \<and>
   fst (get (stubEnv ''KEY'' ''{"success":true,"rates":{}}''
               [(''success'', JBool True), (''rates'', JObject [])])
          (New ''US'') latestURL
          \<lparr>From = [], To = [], query.Base = ''US'', Amount = 0, Symbols = [], Date = [],
           TimeFrame = ([], [])\<rparr>
          \<lparr>Cache = Map.empty, Sent = []\<rparr>)
     = Ok [(''success'', JBool True), (''rates'', JObject [])] \<and>
   Sent (snd (get (stubEnv ''KEY'' ''{"success":true,"rates":{}}''
               [(''success'', JBool True), (''rates'', JObject [])])
          (New ''US'') latestURL
          \<lparr>From = [], To = [], query.Base = ''US'', Amount = 0, Symbols = [], Date = [],
           TimeFrame = ([], [])\<rparr>
          \<lparr>Cache = Map.empty, Sent = []\<rparr>))
     = [\<lparr>URL = \<lparr>Prefix = ''https://api.exchangerate.host/latest'', ForceQuery = False,
                  RawQuery = [], Suffix = []\<rparr>\<rparr>]\<close>
  by code_simp

end
